theory Spec2Isabelle
  imports Main "HOL-Library.Sublist"
begin

section \<open>Values, AST nodes and the Select statement\<close>

text \<open>
  Python values that a token or a \<open>Constant\<close> carries. A float is kept as the literal
  text handed to \<open>float(...)\<close>; binary64 rounding is outside this model.
\<close>

datatype pyval = VInt int | VFloat string | VStr string

text \<open>
  Modelled from the spec: the package \<open>sql_parser.ast\<close> (classes \<open>ASTNode\<close>, \<open>Identifier\<close>,
  \<open>Constant\<close>, \<open>Operation\<close>, \<open>BinaryOperation\<close>, \<open>UnaryOperation\<close>, \<open>Function\<close>, \<open>Join\<close>,
  \<open>OrderBy\<close>, \<open>Select\<close>) is not among the sources. The constructors below carry the
  attributes that \<open>parser.py\<close> and the tests read and write: \<open>value\<close>, \<open>op\<close>, \<open>args\<close>, \<open>alias\<close>,
  \<open>parentheses\<close>, and for a join \<open>left\<close>, \<open>right\<close>, \<open>join_type\<close>, \<open>condition\<close>, \<open>implicit\<close>.
\<close>

datatype node =
    Identifier string "string option" bool
  | Constant pyval "string option" bool
  | BinaryOperation string node node "string option" bool
  | UnaryOperation string node "string option" bool
  | Function string "node list" "string option" bool
  | Join node node string "node option" bool

datatype direction = ASC_dir | DESC_dir | Default_dir

record order_by_term =
  field :: node
  direction :: direction
  nulls :: "string option"

record select =
  targets :: "node list"
  distinct_flag :: bool
  from_table :: "node option"
  where_clause :: "node option"
  group_by :: "node list option"
  having :: "node option"
  order_by :: "order_by_term list option"
  limit :: "node option"
  offset :: "node option"

text \<open>\<open>Select(targets=..., distinct=...)\<close>: every clause attribute starts as \<open>None\<close>.\<close>

definition Select :: "node list \<Rightarrow> bool \<Rightarrow> select" where
  "Select ts d = \<lparr> targets = ts, distinct_flag = d, from_table = None, where_clause = None,
     group_by = None, having = None, order_by = None, limit = None, offset = None \<rparr>"

text \<open>
  \<open>ParsingException(message)\<close>, and the lexer's \<open>LexError\<close> with the text that is left and
  the index of the character no pattern matches.
\<close>

datatype error = ParsingException string | LexError string nat

text \<open>The message of a \<open>ParsingException\<close>, as \<open>str(excinfo.value)\<close> reads it.\<close>

fun message :: "error \<Rightarrow> string" where
  "message (ParsingException m) = m"
| "message (LexError t i) = []"

fun set_alias :: "string \<Rightarrow> node \<Rightarrow> node" where
  "set_alias a (Identifier v _ p) = Identifier v (Some a) p"
| "set_alias a (Constant v _ p) = Constant v (Some a) p"
| "set_alias a (BinaryOperation oper l r _ p) = BinaryOperation oper l r (Some a) p"
| "set_alias a (UnaryOperation oper x _ p) = UnaryOperation oper x (Some a) p"
| "set_alias a (Function oper xs _ p) = Function oper xs (Some a) p"
| "set_alias a (Join l r t c i) = Join l r t c i"

fun set_parentheses :: "node \<Rightarrow> node" where
  "set_parentheses (Identifier v a _) = Identifier v a True"
| "set_parentheses (Constant v a _) = Constant v a True"
| "set_parentheses (BinaryOperation oper l r a _) = BinaryOperation oper l r a True"
| "set_parentheses (UnaryOperation oper x a _) = UnaryOperation oper x a True"
| "set_parentheses (Function oper xs a _) = Function oper xs a True"
| "set_parentheses (Join l r t c i) = Join l r t c i"

text \<open>
  Modelled from the spec: \<open>isinstance(e, Operation)\<close>. The class hierarchy is not among the
  sources; the spec's data model names \<open>BinaryOperation\<close> and \<open>UnaryOperation\<close> as the
  operation nodes a WHERE or HAVING clause may hold.
\<close>

fun is_Operation :: "node \<Rightarrow> bool" where
  "is_Operation (BinaryOperation _ _ _ _ _) = True"
| "is_Operation (UnaryOperation _ _ _ _) = True"
| "is_Operation _ = False"

fun is_Identifier :: "node \<Rightarrow> bool" where
  "is_Identifier (Identifier _ _ _) = True"
| "is_Identifier _ = False"

section \<open>Rendering of values and nodes\<close>

definition digit_char :: "nat \<Rightarrow> char" where
  "digit_char d = char_of (48 + d)"

fun str_nat :: "nat \<Rightarrow> string" where
  "str_nat n = (if n < 10 then [digit_char n] else str_nat (n div 10) @ [digit_char (n mod 10)])"

definition str_int :: "int \<Rightarrow> string" where
  "str_int i = (if i < 0 then CHR ''-'' # str_nat (nat (- i)) else str_nat (nat i))"

text \<open>
  \<open>str(v)\<close> of a Python value, as an f-string inserts it. The text of a float is
  Python's \<open>str(float(t))\<close>, which is passed in as \<open>fstr\<close>.
\<close>

fun str_value :: "(string \<Rightarrow> string) \<Rightarrow> pyval \<Rightarrow> string" where
  "str_value fstr (VInt i) = str_int i"
| "str_value fstr (VFloat t) = fstr t"
| "str_value fstr (VStr s) = s"

section \<open>Clause order: \<open>ensure_select_keyword_order\<close>\<close>

datatype clause = FROM_c | WHERE_c | GROUP_BY_c | HAVING_c | ORDER_BY_c | LIMIT_c | OFFSET_c

fun clause_name :: "clause \<Rightarrow> string" where
  "clause_name FROM_c = ''FROM''"
| "clause_name WHERE_c = ''WHERE''"
| "clause_name GROUP_BY_c = ''GROUP BY''"
| "clause_name HAVING_c = ''HAVING''"
| "clause_name ORDER_BY_c = ''ORDER BY''"
| "clause_name LIMIT_c = ''LIMIT''"
| "clause_name OFFSET_c = ''OFFSET''"

text \<open>
  The dictionary \<open>op_to_attr\<close> is only ever tested for truth. An AST node is a plain object
  and so true whenever it is not \<open>None\<close>; a list is true when it is not empty.
\<close>

fun op_to_attr :: "select \<Rightarrow> clause \<Rightarrow> bool" where
  "op_to_attr s FROM_c = (from_table s \<noteq> None)"
| "op_to_attr s WHERE_c = (where_clause s \<noteq> None)"
| "op_to_attr s GROUP_BY_c = (group_by s \<noteq> None \<and> group_by s \<noteq> Some [])"
| "op_to_attr s HAVING_c = (having s \<noteq> None)"
| "op_to_attr s ORDER_BY_c = (order_by s \<noteq> None \<and> order_by s \<noteq> Some [])"
| "op_to_attr s LIMIT_c = (limit s \<noteq> None)"
| "op_to_attr s OFFSET_c = (offset s \<noteq> None)"

fun requirements :: "clause \<Rightarrow> clause list" where
  "requirements WHERE_c = [FROM_c]"
| "requirements GROUP_BY_c = [FROM_c]"
| "requirements ORDER_BY_c = [FROM_c]"
| "requirements HAVING_c = [GROUP_BY_c]"
| "requirements _ = []"

definition precedence :: "clause list" where
  "precedence = [FROM_c, WHERE_c, GROUP_BY_c, HAVING_c, ORDER_BY_c, LIMIT_c, OFFSET_c]"

text \<open>\<open>xs[xs.index(x):]\<close>: the list from the first occurrence of \<open>x\<close> on.\<close>

definition from_index :: "'a \<Rightarrow> 'a list \<Rightarrow> 'a list" where
  "from_index x xs = dropWhile (\<lambda>y. y \<noteq> x) xs"

definition ensure_select_keyword_order :: "select \<Rightarrow> clause \<Rightarrow> error + unit" where
  "ensure_select_keyword_order sel operation =
     (if op_to_attr sel operation then
        Inl (ParsingException (''Duplicate '' @ clause_name operation @ '' clause. Only one ''
               @ clause_name operation @ '' allowed per SELECT.''))
      else case find (\<lambda>req. \<not> op_to_attr sel req) (requirements operation) of
        Some req \<Rightarrow>
          Inl (ParsingException (clause_name operation @ '' requires '' @ clause_name req))
      | None \<Rightarrow>
         (case find (op_to_attr sel) (from_index operation precedence) of
            Some next_op \<Rightarrow>
              Inl (ParsingException
                     (clause_name operation @ '' must go after '' @ clause_name next_op))
          | None \<Rightarrow> Inr ()))"

section \<open>The lexer: \<open>SQLLexer\<close>\<close>

text \<open>
  A token has a type, which is the name of the pattern that matched (a Python string such
  as \<open>'GROUP_BY'\<close>), and a value: the matched text, or what the pattern's function made
  of it.
\<close>

type_synonym token_type = string

datatype token = Token token_type pyval

fun tok_type :: "token \<Rightarrow> token_type" where
  "tok_type (Token ty v) = ty"

fun tok_value :: "token \<Rightarrow> pyval" where
  "tok_value (Token ty v) = v"

subsection \<open>Character classes\<close>

text \<open>
  The text is a list of characters with the code points 0 to 255 (the ASCII characters and
  the Latin-1 supplement); a text with a character beyond them is outside this model. The
  patterns are \<open>str\<close> patterns, so \<open>\b\<close>, \<open>\d\<close> and \<open>re.IGNORECASE\<close> follow Unicode on these
  characters.
\<close>

definition code :: "char \<Rightarrow> nat" where
  "code c = of_char c"

text \<open>\<open>0\<close> to \<open>9\<close>, \<open>A\<close> to \<open>Z\<close> and \<open>a\<close> to \<open>z\<close>, by their codes.\<close>

definition is_digit :: "char \<Rightarrow> bool" where
  "is_digit c = (48 \<le> code c \<and> code c \<le> 57)"

definition is_upper :: "char \<Rightarrow> bool" where
  "is_upper c = (65 \<le> code c \<and> code c \<le> 90)"

definition is_lower :: "char \<Rightarrow> bool" where
  "is_lower c = (97 \<le> code c \<and> code c \<le> 122)"

definition is_letter :: "char \<Rightarrow> bool" where
  "is_letter c = (if is_upper c then True else is_lower c)"

text \<open>\<open>[a-zA-Z_$]\<close> and \<open>[a-zA-Z_$0-9]\<close> of the identifier pattern.\<close>

definition is_id_alpha :: "char \<Rightarrow> bool" where
  "is_id_alpha c = (if is_letter c then True else c = CHR ''_'' \<or> c = CHR ''$'')"

definition is_id_char :: "char \<Rightarrow> bool" where
  "is_id_char c = (if is_id_alpha c then True else is_digit c)"

text \<open>
  The alphanumeric characters with a code from 128 to 255: the ordinal indicators (170 and
  186), the micro sign (181), the superscript digits (178, 179 and 185), the fractions (188
  to 190) and the letters from 192 to 255, which are all of them but the multiplication
  sign (215) and the division sign (247). None of them is matched by \<open>\d\<close>, by
  \<open>[a-zA-Z_$0-9]\<close> or, ignoring case, by a letter of a keyword.
\<close>

definition is_latin1_alnum :: "char \<Rightarrow> bool" where
  "is_latin1_alnum c =
     (if code c < 170 then False
      else if code c = 170 then True
      else if code c = 178 then True
      else if code c = 179 then True
      else if code c = 181 then True
      else if code c = 185 then True
      else if code c = 186 then True
      else if code c < 188 then False
      else if code c \<le> 190 then True
      else if code c < 192 then False
      else if code c = 215 then False
      else code c \<noteq> 247)"

text \<open>
  A word character in the sense of \<open>\b\<close>: an alphanumeric character or the underscore.
\<close>

definition is_word :: "char \<Rightarrow> bool" where
  "is_word c =
     (if is_letter c then True
      else if is_digit c then True
      else if c = CHR ''_'' then True
      else is_latin1_alnum c)"

text \<open>
  \<open>\b\<close> between the character before the position (if any) and the one after it (if any):
  exactly one of the two is a word character.
\<close>

fun word_at :: "char option \<Rightarrow> bool" where
  "word_at None = False"
| "word_at (Some c) = is_word c"

definition boundary :: "char option \<Rightarrow> char option \<Rightarrow> bool" where
  "boundary before after = (word_at before \<noteq> word_at after)"

fun head_opt :: "string \<Rightarrow> char option" where
  "head_opt [] = None"
| "head_opt (c # cs) = Some c"

text \<open>\<open>re.IGNORECASE\<close> on the letters of a pattern: the two cases of a letter are alike.\<close>

definition lower_code :: "char \<Rightarrow> nat" where
  "lower_code c = (if is_upper c then code c + 32 else code c)"

definition ci_eq :: "char \<Rightarrow> char \<Rightarrow> bool" where
  "ci_eq p c = (lower_code p = lower_code c)"

fun prefix_ci :: "string \<Rightarrow> string \<Rightarrow> bool" where
  "prefix_ci [] s = True"
| "prefix_ci (p # ps) [] = False"
| "prefix_ci (p # ps) (c # cs) = (if ci_eq p c then prefix_ci ps cs else False)"

subsection \<open>The patterns\<close>

text \<open>
  Each pattern is a function of the character before the position and the text from the
  position on; it returns the length of its match there, as \<open>re.match\<close> finds it.

  \<open>\bWORD\b\<close>: the keyword patterns, among them the two-word ones with their one space.
\<close>

definition match_keyword :: "string \<Rightarrow> char option \<Rightarrow> string \<Rightarrow> nat option" where
  "match_keyword kw before s =
     (if kw = [] then None
      else if \<not> prefix_ci kw s then None
      else if \<not> boundary before (head_opt s) then None
      else if \<not> boundary (Some (last kw)) (head_opt (drop (length kw) s)) then None
      else Some (length kw))"

text \<open>A pattern without \<open>\b\<close>: the operators and the punctuation.\<close>

definition match_literal :: "string \<Rightarrow> string \<Rightarrow> nat option" where
  "match_literal lit s =
     (if lit = [] then None else if prefix_ci lit s then Some (length lit) else None)"

text \<open>
  One segment of an identifier: \<open>[a-zA-Z_$0-9]*[a-zA-Z_$]+[a-zA-Z_$0-9]*\<close>, which by greedy
  matching is the whole run of identifier characters when the run holds a character that
  is not a digit, or else a back-quoted run of one or more characters that are not a back
  quote.
\<close>

definition match_segment :: "string \<Rightarrow> nat option" where
  "match_segment s =
     (let run = takeWhile is_id_char s in
      if filter is_id_alpha run \<noteq> [] then Some (length run)
      else case s of
             [] \<Rightarrow> None
           | c # r \<Rightarrow>
               if c = CHR 0x60 then
                 (let body = takeWhile (\<lambda>x. x \<noteq> CHR 0x60) r in
                  if body = [] then None
                  else if head_opt (drop (length body) r) = Some (CHR 0x60)
                  then Some (length body + 2) else None)
               else None)"

text \<open>The repetition \<open>(?:\.(?:segment))*\<close>: as many dotted segments as there are.\<close>

function match_dotted :: "string \<Rightarrow> nat" where
  "match_dotted s =
     (case s of
        [] \<Rightarrow> 0
      | c # r \<Rightarrow>
          if c = CHR ''.'' then
            (case match_segment r of
               None \<Rightarrow> 0
             | Some n \<Rightarrow> if n = 0 then 0 else Suc n + match_dotted (drop n r))
          else 0)"
  by pat_completeness auto
termination
  by (relation "measure length") auto

definition match_ID :: "string \<Rightarrow> nat option" where
  "match_ID s =
     (case match_segment s of
        None \<Rightarrow> None
      | Some n \<Rightarrow> Some (n + match_dotted (drop n s)))"

text \<open>\<open>\d+\.\d+\<close> and \<open>\d+\<close>.\<close>

definition match_FLOAT :: "string \<Rightarrow> nat option" where
  "match_FLOAT s =
     (let ip = takeWhile is_digit s; r = drop (length ip) s in
      case r of
        [] \<Rightarrow> None
      | c # r' \<Rightarrow>
          (let fp = takeWhile is_digit r' in
           if ip = [] then None
           else if c \<noteq> CHR ''.'' then None
           else if fp = [] then None
           else Some (length ip + 1 + length fp)))"

definition match_INTEGER :: "string \<Rightarrow> nat option" where
  "match_INTEGER s =
     (let ds = takeWhile is_digit s in if ds \<noteq> [] then Some (length ds) else None)"

text \<open>\<open>"[^"]*"\<close> or \<open>'[^']*'\<close>.\<close>

definition match_quoted :: "char \<Rightarrow> string \<Rightarrow> nat option" where
  "match_quoted q s =
     (case s of
        [] \<Rightarrow> None
      | c # r \<Rightarrow>
          if c = q then
            (let body = takeWhile (\<lambda>x. x \<noteq> q) r in
             if head_opt (drop (length body) r) = Some q then Some (length body + 2) else None)
          else None)"

definition match_STRING :: "string \<Rightarrow> nat option" where
  "match_STRING s =
     (case match_quoted (CHR 0x22) s of
        Some n \<Rightarrow> Some n
      | None \<Rightarrow> match_quoted (CHR 0x27) s)"

subsection \<open>The master pattern and the token functions\<close>

datatype pattern =
  Keyword string | Literal string | Id_pattern | Float_pattern | Integer_pattern | String_pattern

text \<open>
  The patterns in the order of the class body, which is the order of the alternatives of
  the master regular expression: at a position the first pattern that matches gives the
  token. \<open>Keyword w\<close> is \<open>\bw\b\<close>, \<open>Literal w\<close> is the escaped text \<open>w\<close>.
\<close>

definition rules :: "(token_type \<times> pattern) list" where
  "rules =
   [(''SET'', Keyword ''SET''), (''AUTOCOMMIT'', Keyword ''AUTOCOMMIT''),
    (''START'', Keyword ''START''), (''TRANSACTION'', Keyword ''TRANSACTION''),
    (''COMMIT'', Keyword ''COMMIT''), (''ROLLBACK'', Keyword ''ROLLBACK''),
    (''EXPLAIN'', Keyword ''EXPLAIN''), (''ALTER'', Keyword ''ALTER''),
    (''USE'', Keyword ''USE''), (''DESCRIBE'', Keyword ''DESCRIBE''),
    (''SHOW'', Keyword ''SHOW''), (''SCHEMAS'', Keyword ''SCHEMAS''),
    (''DATABASES'', Keyword ''DATABASES''), (''TABLES'', Keyword ''TABLES''),
    (''TABLE'', Keyword ''TABLE''), (''FULL'', Keyword ''FULL''),
    (''VARIABLES'', Keyword ''VARIABLES''), (''SESSION'', Keyword ''SESSION''),
    (''STATUS'', Keyword ''STATUS''), (''GLOBAL'', Keyword ''GLOBAL''),
    (''PROCEDURE'', Keyword ''PROCEDURE''), (''FUNCTION'', Keyword ''FUNCTION''),
    (''INDEX'', Keyword ''INDEX''), (''CREATE'', Keyword ''CREATE''),
    (''WARNINGS'', Keyword ''WARNINGS''), (''ENGINES'', Keyword ''ENGINES''),
    (''CHARSET'', Keyword ''CHARSET''), (''CHARACTER'', Keyword ''CHARACTER''),
    (''COLLATION'', Keyword ''COLLATION''), (''PLUGINS'', Keyword ''PLUGINS''),
    (''ON'', Keyword ''ON''), (''ASC'', Keyword ''ASC''), (''DESC'', Keyword ''DESC''),
    (''NULLS_FIRST'', Keyword ''NULLS FIRST''), (''NULLS_LAST'', Keyword ''NULLS LAST''),
    (''WITH'', Keyword ''WITH''), (''SELECT'', Keyword ''SELECT''),
    (''DISTINCT'', Keyword ''DISTINCT''), (''FROM'', Keyword ''FROM''),
    (''AS'', Keyword ''AS''), (''WHERE'', Keyword ''WHERE''), (''LIMIT'', Keyword ''LIMIT''),
    (''OFFSET'', Keyword ''OFFSET''), (''GROUP_BY'', Keyword ''GROUP BY''),
    (''HAVING'', Keyword ''HAVING''), (''ORDER_BY'', Keyword ''ORDER BY''),
    (''STAR'', Literal ''*''), (''JOIN'', Keyword ''JOIN''), (''INNER'', Keyword ''INNER''),
    (''OUTER'', Keyword ''OUTER''), (''CROSS'', Keyword ''CROSS''),
    (''LEFT'', Keyword ''LEFT''), (''RIGHT'', Keyword ''RIGHT''),
    (''UNION'', Keyword ''UNION''), (''ALL'', Keyword ''ALL''), (''DOT'', Literal ''.''),
    (''COMMA'', Literal '',''), (''LPAREN'', Literal ''(''), (''RPAREN'', Literal '')''),
    (''PARAMETER'', Literal ''?''), (''PLUS'', Literal ''+''), (''MINUS'', Literal ''-''),
    (''DIVIDE'', Literal ''/''), (''MODULO'', Literal ''%''), (''EQUALS'', Literal ''=''),
    (''NEQUALS'', Literal ''!=''), (''GEQ'', Literal ''>=''), (''GREATER'', Literal ''>''),
    (''LEQ'', Literal ''<=''), (''LESS'', Literal ''<''), (''AND'', Keyword ''AND''),
    (''OR'', Keyword ''OR''), (''NOT'', Keyword ''NOT''), (''IS'', Keyword ''IS''),
    (''LIKE'', Keyword ''LIKE''), (''IN'', Keyword ''IN''), (''CAST'', Keyword ''CAST''),
    (''CONCAT'', Literal ''||''), (''BETWEEN'', Keyword ''BETWEEN''),
    (''WINDOW'', Keyword ''WINDOW''), (''NULL'', Keyword ''NULL''),
    (''TRUE'', Keyword ''TRUE''), (''FALSE'', Keyword ''FALSE''), (''ID'', Id_pattern),
    (''FLOAT'', Float_pattern), (''INTEGER'', Integer_pattern), (''STRING'', String_pattern)]"

fun match_pattern :: "pattern \<Rightarrow> char option \<Rightarrow> string \<Rightarrow> nat option" where
  "match_pattern (Keyword w) before s = match_keyword w before s"
| "match_pattern (Literal w) before s = match_literal w s"
| "match_pattern Id_pattern before s = match_ID s"
| "match_pattern Float_pattern before s = match_FLOAT s"
| "match_pattern Integer_pattern before s = match_INTEGER s"
| "match_pattern String_pattern before s = match_STRING s"

fun first_match ::
  "(token_type \<times> pattern) list \<Rightarrow> char option \<Rightarrow> string \<Rightarrow> (token_type \<times> nat) option" where
  "first_match [] before s = None"
| "first_match ((name, pat) # rs) before s =
     (case match_pattern pat before s of
        Some n \<Rightarrow> Some (name, n)
      | None \<Rightarrow> first_match rs before s)"

definition master_re :: "char option \<Rightarrow> string \<Rightarrow> (token_type \<times> nat) option" where
  "master_re = first_match rules"

definition digit_value :: "char \<Rightarrow> nat" where
  "digit_value c = code c - 48"

text \<open>
  \<open>int(text)\<close>: the number that a run of the digits \<open>0\<close> to \<open>9\<close> writes in base ten, negated
  when a minus sign stands before the run. On a text that is no such numeral \<open>int\<close> raises
  \<open>ValueError\<close>; the lexer calls it on what \<open>\d+\<close> matched and on nothing else, and such a
  text is a run of one or more digits.
\<close>

definition digits_value :: "string \<Rightarrow> nat" where
  "digits_value ds = foldl (\<lambda>acc c. 10 * acc + digit_value c) 0 ds"

definition int_of_digits :: "string \<Rightarrow> int" where
  "int_of_digits ds =
     (case ds of
        [] \<Rightarrow> 0
      | c # r \<Rightarrow>
          if c = CHR ''-'' then - int (digits_value r)
          else if c = CHR ''+'' then int (digits_value r)
          else int (digits_value ds))"

text \<open>\<open>text.strip(q)\<close>: every leading and every trailing \<open>q\<close> goes.\<close>

definition py_strip :: "char \<Rightarrow> string \<Rightarrow> string" where
  "py_strip q s = rev (dropWhile (\<lambda>c. c = q) (rev (dropWhile (\<lambda>c. c = q) s)))"

text \<open>
  The functions attached to \<open>ID\<close>, \<open>FLOAT\<close>, \<open>INTEGER\<close> and \<open>STRING\<close>; every other token
  keeps the matched text as its value.
\<close>

definition token_value :: "token_type \<Rightarrow> string \<Rightarrow> pyval" where
  "token_value name text =
     (if name = ''FLOAT'' then VFloat text
      else if name = ''INTEGER'' then VInt (int_of_digits text)
      else if name = ''STRING'' then
        (if head_opt text = Some (CHR 0x22) then VStr (py_strip (CHR 0x22) text)
         else VStr (py_strip (CHR 0x27) text))
      else VStr text)"

definition ignore :: string where
  "ignore = [CHR '' '', CHR 0x09, CHR 0x0A, CHR 0x0D]"

text \<open>
  \<open>tokenize\<close> is a generator: it yields the tokens one by one and raises \<open>LexError\<close> when
  it reaches a character that no pattern matches. The result is the list of the tokens
  yielded, and the error that ends them if there is one.
\<close>

function tokenize_from :: "nat \<Rightarrow> char option \<Rightarrow> string \<Rightarrow> token list \<times> error option" where
  "tokenize_from index before [] = ([], None)"
| "tokenize_from index before (c # cs) =
     (if c \<in> set ignore then tokenize_from (index + 1) (Some c) cs
      else case master_re before (c # cs) of
        None \<Rightarrow> ([], Some (LexError (c # cs) index))
      | Some (name, n) \<Rightarrow>
          (case tokenize_from (index + n) (Some (last (take n (c # cs)))) (drop n (c # cs)) of
             (toks, err) \<Rightarrow> (Token name (token_value name (take n (c # cs))) # toks, err)))"
  by pat_completeness auto
termination
proof (relation "measure (\<lambda>(index, before, s). length s)")
  show "wf (measure (\<lambda>(index, before, s). length s))" by simp
next
  fix index :: nat and before :: "char option" and c :: char and cs :: string
  assume "c \<in> set ignore"
  then show "((index + 1, Some c, cs), (index, before, c # cs))
               \<in> measure (\<lambda>(index, before, s). length s)" by simp
next
  fix index :: nat and before :: "char option" and c :: char and cs :: string
  fix hit :: "token_type \<times> nat"
  fix nm :: token_type
  fix len :: nat
  assume m: "master_re before (c # cs) = Some hit" and hit: "(nm, len) = hit"
  have seg: "0 < k" if "match_segment s = Some k" for s k
    using that
    by (auto simp: match_segment_def Let_def split: if_splits list.splits)
  have pat: "0 < k" if "match_pattern p b s = Some k" for p b s k
    using that seg
    by (cases p)
       (auto simp: match_keyword_def match_literal_def match_ID_def match_FLOAT_def
          match_INTEGER_def match_STRING_def match_quoted_def Let_def
          split: if_splits list.splits option.splits)
  have fm: "0 < k" if "first_match rs b s = Some (r, k)" for rs b s r k
    using that pat
    by (induction rs) (auto split: option.splits)
  from m hit have "first_match rules before (c # cs) = Some (nm, len)"
    by (simp add: master_re_def)
  then have "0 < len" by (rule fm)
  then show "((index + len, Some (last (take len (c # cs))), drop len (c # cs)),
              (index, before, c # cs))
               \<in> measure (\<lambda>(index, before, s). length s)" by simp
qed

definition tokenize :: "string \<Rightarrow> token list \<times> error option" where
  "tokenize text = tokenize_from 0 None text"

subsection \<open>The lexer of \<open>sql_parser\<close>\<close>




section \<open>The parser: \<open>SQLParser\<close>\<close>

text \<open>
  Modelled from the spec: \<open>str(node)\<close> and \<open>str([node, ...])\<close> are methods of the AST
  classes, which are not among the sources, and \<open>str\<close> of a float is Python's. The
  parser only pastes these texts into its messages, so they are parameters here.
\<close>

record renderer =
  node_str :: "node \<Rightarrow> string"
  list_str :: "node list \<Rightarrow> string"
  float_str :: "string \<Rightarrow> string"

text \<open>The text of a keyword, operator or \<open>ID\<close> token, whose value is always a string.\<close>

fun text_of :: "pyval \<Rightarrow> string" where
  "text_of (VStr s) = s"
| "text_of (VInt i) = str_int i"
| "text_of (VFloat t) = t"

text \<open>\<open>int(v)\<close>, \<open>float(v)\<close> and \<open>str(v)\<close> on the value of a literal token.\<close>

fun py_int :: "pyval \<Rightarrow> pyval" where
  "py_int (VInt i) = VInt i"
| "py_int (VFloat t) = VInt (int_of_digits (takeWhile is_digit t))"
| "py_int (VStr s) = VInt (int_of_digits s)"

fun py_float :: "pyval \<Rightarrow> pyval" where
  "py_float (VFloat t) = VFloat t"
| "py_float (VInt i) = VFloat (str_int i)"
| "py_float (VStr s) = VFloat s"

fun py_str :: "renderer \<Rightarrow> pyval \<Rightarrow> pyval" where
  "py_str R v = VStr (str_value (float_str R) v)"

subsection \<open>The rules that can raise\<close>

text \<open>\<open>isinstance(v, int)\<close>.\<close>

fun is_int :: "pyval \<Rightarrow> bool" where
  "is_int (VInt i) = True"
| "is_int _ = False"

text \<open>\<open>p.constant.value\<close>: the \<open>constant\<close> rules always build a \<open>Constant\<close>.\<close>

fun constant_value :: "node \<Rightarrow> pyval" where
  "constant_value (Constant v a p) = v"
| "constant_value (Identifier v a p) = VStr v"
| "constant_value _ = VStr []"

definition select_OFFSET :: "renderer \<Rightarrow> select \<Rightarrow> node \<Rightarrow> error + select" where
  "select_OFFSET R sel constant =
     (case ensure_select_keyword_order sel OFFSET_c of
        Inl e \<Rightarrow> Inl e
      | Inr u \<Rightarrow>
          if \<not> is_int (constant_value constant) then
            Inl (ParsingException (''OFFSET must be an integer value, got: ''
                   @ str_value (float_str R) (constant_value constant)))
          else Inr (sel\<lparr>offset := Some constant\<rparr>))"

definition select_LIMIT :: "renderer \<Rightarrow> select \<Rightarrow> node \<Rightarrow> error + select" where
  "select_LIMIT R sel constant =
     (case ensure_select_keyword_order sel LIMIT_c of
        Inl e \<Rightarrow> Inl e
      | Inr u \<Rightarrow>
          if \<not> is_int (constant_value constant) then
            Inl (ParsingException (''LIMIT must be an integer value, got: ''
                   @ str_value (float_str R) (constant_value constant)))
          else Inr (sel\<lparr>limit := Some constant\<rparr>))"

definition select_ORDER_BY :: "select \<Rightarrow> order_by_term list \<Rightarrow> error + select" where
  "select_ORDER_BY sel ordering_terms =
     (case ensure_select_keyword_order sel ORDER_BY_c of
        Inl e \<Rightarrow> Inl e
      | Inr u \<Rightarrow> Inr (sel\<lparr>order_by := Some ordering_terms\<rparr>))"

definition select_HAVING :: "renderer \<Rightarrow> select \<Rightarrow> node \<Rightarrow> error + select" where
  "select_HAVING R sel expr =
     (case ensure_select_keyword_order sel HAVING_c of
        Inl e \<Rightarrow> Inl e
      | Inr u \<Rightarrow>
          if \<not> is_Operation expr then
            Inl (ParsingException
                   (''HAVING must contain an operation that evaluates to a boolean, got: ''
                    @ node_str R expr))
          else Inr (sel\<lparr>having := Some expr\<rparr>))"

definition select_GROUP_BY :: "renderer \<Rightarrow> select \<Rightarrow> node list \<Rightarrow> error + select" where
  "select_GROUP_BY R sel expr_list =
     (case ensure_select_keyword_order sel GROUP_BY_c of
        Inl e \<Rightarrow> Inl e
      | Inr u \<Rightarrow>
          if \<not> list_all is_Identifier expr_list then
            Inl (ParsingException (''GROUP BY must contain a list identifiers, got: ''
                   @ list_str R expr_list))
          else Inr (sel\<lparr>group_by := Some expr_list\<rparr>))"

definition select_WHERE :: "renderer \<Rightarrow> select \<Rightarrow> node \<Rightarrow> error + select" where
  "select_WHERE R sel expr =
     (case ensure_select_keyword_order sel WHERE_c of
        Inl e \<Rightarrow> Inl e
      | Inr u \<Rightarrow>
          if \<not> is_Operation expr then
            Inl (ParsingException
                   (''WHERE must contain an operation that evaluates to a boolean, got: ''
                    @ node_str R expr))
          else Inr (sel\<lparr>where_clause := Some expr\<rparr>))"

definition select_FROM :: "select \<Rightarrow> node \<Rightarrow> error + select" where
  "select_FROM sel from_table_node =
     (case ensure_select_keyword_order sel FROM_c of
        Inl e \<Rightarrow> Inl e
      | Inr u \<Rightarrow> Inr (sel\<lparr>from_table := Some from_table_node\<rparr>))"

text \<open>\<open>SQLParser.error\<close>: \<open>p\<close> is the token the parser cannot use, or \<open>None\<close> at the end.\<close>

fun syntax_error :: "renderer \<Rightarrow> token option \<Rightarrow> error" where
  "syntax_error R (Some (Token ty v)) =
     ParsingException (''Syntax error at token '' @ ty @ '': '' @ [CHR 0x22]
                        @ str_value (float_str R) v @ [CHR 0x22])"
| "syntax_error R None = ParsingException ''Syntax error at EOF''"

subsection \<open>The shift-reduce automaton of the grammar\<close>

text \<open>
  \<open>SQLParser\<close> is a grammar for the LALR(1) generator of the \<open>sly\<close> library: each method
  is the action of the rules on its decorator, run when the rule is reduced. The
  generator's automaton is written here as a decision on the parse stack and the
  lookahead token. A stack entry is a token that was shifted or a grammar symbol with the
  value its rule returned; the top of the stack is the head of the list.
\<close>

datatype symbol =
    Term token
  | N_select select
  | N_ordering_terms "order_by_term list"
  | N_ordering_term order_by_term
  | N_from_table node
  | N_table_or_subquery node
  | N_join_clause string
  | N_result_columns "node list"
  | N_result_column node
  | N_expr node
  | N_expr_list "node list"
  | N_enumeration "node list"
  | N_identifier node
  | N_constant node

datatype action = Shift | Reduce "symbol list" | Raise error | Accept select | Reject

text \<open>The type of the lookahead; \<open>$end\<close> stands for the end of the tokens.\<close>

fun la_type :: "token option \<Rightarrow> token_type" where
  "la_type None = ''$end''"
| "la_type (Some t) = tok_type t"

definition binary_operators :: "token_type list" where
  "binary_operators =
     [''PLUS'', ''MINUS'', ''STAR'', ''DIVIDE'', ''MODULO'', ''EQUALS'', ''NEQUALS'', ''GEQ'',
      ''GREATER'', ''LEQ'', ''LESS'', ''AND'', ''OR'', ''NOT'', ''ISNOT'', ''IS'', ''LIKE'', ''IN'']"

definition expr_starts :: "token_type list" where
  "expr_starts =
     [''ID'', ''LPAREN'', ''MINUS'', ''NOT'', ''STAR'', ''INTEGER'', ''FLOAT'', ''STRING'']"

definition join_tokens :: "token_type list" where
  "join_tokens = [''LEFT_JOIN'', ''RIGHT_JOIN'', ''INNER_JOIN'', ''FULL_JOIN'']"

text \<open>What may follow a whole \<open>select\<close>: the end, or the keyword of one more clause.\<close>

definition after_select :: "token_type list" where
  "after_select =
     [''$end'', ''OFFSET'', ''LIMIT'', ''ORDER_BY'', ''HAVING'', ''GROUP_BY'', ''WHERE'', ''FROM'']"

text \<open>What may follow an \<open>expr\<close> in some place of the grammar.\<close>

definition after_expr :: "token_type list" where
  "after_expr = binary_operators @ [''RPAREN'', ''COMMA'', ''AS''] @ after_select"

definition after_ordering_term :: "token_type list" where
  "after_ordering_term = [''NULLS_FIRST'', ''NULLS_LAST'', ''COMMA''] @ after_select"

definition after_table :: "token_type list" where
  "after_table = join_tokens @ [''COMMA'', ''ON''] @ after_select"

definition after_result_column :: "token_type list" where
  "after_result_column = [''AS'', ''COMMA''] @ after_select"

text \<open>
  The \<open>precedence\<close> table of the class: level 1 is its first line. A token that the
  table does not name, and a rule whose last token it does not name, get
  \<open>('right', 0)\<close> from the generator.
\<close>

datatype assoc = Left_assoc | Right_assoc | Nonassoc

definition SQLParser_precedence :: "(token_type \<times> assoc \<times> nat) list" where
  "SQLParser_precedence =
     [(''LESS'', Nonassoc, 1), (''LEQ'', Nonassoc, 1), (''GREATER'', Nonassoc, 1),
      (''GEQ'', Nonassoc, 1), (''EQUALS'', Nonassoc, 1), (''NEQUALS'', Nonassoc, 1),
      (''PLUS'', Left_assoc, 2), (''MINUS'', Left_assoc, 2),
      (''STAR'', Left_assoc, 3), (''DIVIDE'', Left_assoc, 3),
      (''UMINUS'', Right_assoc, 4), (''UNOT'', Right_assoc, 4)]"

definition prec_of :: "token_type \<Rightarrow> assoc \<times> nat" where
  "prec_of name = (case map_of SQLParser_precedence name of
                     Some pr \<Rightarrow> pr | None \<Rightarrow> (Right_assoc, 0))"

text \<open>
  How the generator settles a state in which a rule of precedence \<open>(rprec, rlevel)\<close>
  could be reduced and the lookahead \<open>a\<close> could be shifted: it reduces when the token's
  level is lower, or equal with a left-associative rule; it makes the token an error when
  the levels are equal and the rule is non-associative; otherwise it shifts.
\<close>

definition resolve :: "assoc \<times> nat \<Rightarrow> token_type \<Rightarrow> symbol list \<Rightarrow> action" where
  "resolve rule a reduced =
     (case rule of (rprec, rlevel) \<Rightarrow>
        (case prec_of a of (sprec, slevel) \<Rightarrow>
           if slevel < rlevel then Reduce reduced
           else if slevel = rlevel then
             (if rprec = Left_assoc then Reduce reduced
              else if rprec = Nonassoc then Reject
              else Shift)
           else Shift))"

fun identifier_value :: "node \<Rightarrow> string" where
  "identifier_value (Identifier v a p) = v"
| "identifier_value _ = []"

fun lift_select :: "error + select \<Rightarrow> symbol list \<Rightarrow> action" where
  "lift_select (Inl e) rest = Raise e"
| "lift_select (Inr sel) rest = Reduce (N_select sel # rest)"

text \<open>Is the symbol on top an \<open>expr\<close>? Then a \<open>STAR\<close>, \<open>MINUS\<close> or \<open>NOT\<close> above it is binary.\<close>

fun top_is_expr :: "symbol list \<Rightarrow> bool" where
  "top_is_expr (N_expr e # rest) = True"
| "top_is_expr _ = False"

text \<open>
  The places where only an \<open>identifier\<close> may come next: after \<open>AS\<close>, \<open>ORDER BY\<close>, \<open>FROM\<close>, a
  join keyword, and after the comma of an ordering list or of an implicit join.
\<close>

definition identifier_only :: "symbol list \<Rightarrow> bool" where
  "identifier_only st =
     (case st of
        Term t # rest \<Rightarrow>
          if tok_type t \<in> set [''AS'', ''ORDER_BY'', ''FROM''] then True
          else if tok_type t = ''COMMA'' then
            (case rest of
               N_ordering_terms l # r \<Rightarrow> True
             | N_table_or_subquery a # r \<Rightarrow> True
             | _ \<Rightarrow> False)
          else False
      | N_join_clause j # rest \<Rightarrow> True
      | _ \<Rightarrow> False)"

definition one_of :: "token option \<Rightarrow> token_type list \<Rightarrow> bool" where
  "one_of la names = (la_type la \<in> set names)"

text \<open>
  A token is on top of the stack. A literal, \<open>*\<close> and a name in an identifier place are
  reduced at once (\<open>constant\<close>, \<open>identifier\<close>); \<open>ASC\<close>, \<open>DESC\<close>, \<open>NULLS FIRST\<close>,
  \<open>NULLS LAST\<close>, a join keyword and \<open>)\<close> end a rule; every other token waits for what
  its rule has next.
\<close>

definition lr_token :: "renderer \<Rightarrow> token \<Rightarrow> symbol list \<Rightarrow> token option \<Rightarrow> action" where
  "lr_token R t rest la =
     (let ty = tok_type t; v = tok_value t in
      if ty = ''INTEGER'' then
        (if one_of la after_expr then Reduce (N_constant (Constant (py_int v) None False) # rest)
         else Reject)
      else if ty = ''FLOAT'' then
        (if one_of la after_expr then Reduce (N_constant (Constant (py_float v) None False) # rest)
         else Reject)
      else if ty = ''STRING'' then
        (if one_of la after_expr then Reduce (N_constant (Constant (py_str R v) None False) # rest)
         else Reject)
      else if ty = ''STAR'' \<and> \<not> top_is_expr rest then
        (if one_of la (after_expr @ after_ordering_term @ after_table @ [''ASC'', ''DESC''])
         then Reduce (N_identifier (Identifier (text_of v) None False) # rest)
         else Reject)
      else if ty = ''ID'' then
        (if identifier_only rest then
           (if one_of la (after_ordering_term @ after_table @ after_result_column
                           @ [''ASC'', ''DESC''])
            then Reduce (N_identifier (Identifier (text_of v) None False) # rest)
            else Reject)
         else if one_of la [''LPAREN''] then Shift
         else if one_of la after_expr
         then Reduce (N_identifier (Identifier (text_of v) None False) # rest)
         else Reject)
      else if ty = ''DESC'' \<or> ty = ''ASC'' then
        (case rest of
           N_identifier i # r \<Rightarrow>
             if one_of la after_ordering_term then
               Reduce (N_ordering_term
                 \<lparr>field = i, direction = (if ty = ''DESC'' then DESC_dir else ASC_dir),
                  nulls = None\<rparr> # r)
             else Reject
         | _ \<Rightarrow> Reject)
      else if ty = ''NULLS_FIRST'' \<or> ty = ''NULLS_LAST'' then
        (case rest of
           N_ordering_term ot # r \<Rightarrow>
             if one_of la after_ordering_term
             then Reduce (N_ordering_term (ot\<lparr>nulls := Some (text_of v)\<rparr>) # r)
             else Reject
         | _ \<Rightarrow> Reject)
      else if ty \<in> set join_tokens then
        (if one_of la [''ID'', ''STAR''] then Reduce (N_join_clause (text_of v) # rest)
         else Reject)
      else if ty = ''RPAREN'' then
        (case rest of
           N_expr_list l # Term lp # Term f # r \<Rightarrow>
             if one_of la after_expr
             then Reduce (N_expr (Function (text_of (tok_value f)) l None False) # r)
             else Reject
         | N_expr e # Term lp # r \<Rightarrow>
             if one_of la after_expr then Reduce (N_expr (set_parentheses e) # r) else Reject
         | _ \<Rightarrow> Reject)
      else if ty = ''OFFSET'' \<or> ty = ''LIMIT'' then
        (if one_of la [''INTEGER'', ''FLOAT'', ''STRING''] then Shift else Reject)
      else if identifier_only (Term t # rest) then
        (if one_of la [''ID'', ''STAR''] then Shift else Reject)
      else if ty = ''SELECT'' then
        (if one_of la (''DISTINCT'' # expr_starts) then Shift else Reject)
      else if ty \<in> set ([''DISTINCT'', ''COMMA'', ''LPAREN'', ''WHERE'', ''HAVING'', ''GROUP_BY'',
                          ''ON''] @ binary_operators) then
        (if one_of la expr_starts then Shift else Reject)
      else Reject)"

text \<open>
  A \<open>constant\<close> is on top: after \<open>OFFSET\<close> or \<open>LIMIT\<close> it ends the clause; anywhere else
  it is an \<open>expr\<close>.
\<close>

definition lr_constant :: "renderer \<Rightarrow> node \<Rightarrow> symbol list \<Rightarrow> token option \<Rightarrow> action" where
  "lr_constant R c rest la =
     (case rest of
        Term t # N_select sel # r \<Rightarrow>
          if tok_type t = ''OFFSET'' then
            (if one_of la after_select then lift_select (select_OFFSET R sel c) r else Reject)
          else if tok_type t = ''LIMIT'' then
            (if one_of la after_select then lift_select (select_LIMIT R sel c) r else Reject)
          else if one_of la after_expr then Reduce (N_expr c # rest) else Reject
      | _ \<Rightarrow> if one_of la after_expr then Reduce (N_expr c # rest) else Reject)"

text \<open>
  An \<open>identifier\<close> is on top: an ordering term, a table, the alias of a result column,
  or an \<open>expr\<close>, by the place it stands in.
\<close>

definition lr_identifier :: "node \<Rightarrow> symbol list \<Rightarrow> token option \<Rightarrow> action" where
  "lr_identifier i rest la =
     (case rest of
        Term t # r \<Rightarrow>
          if tok_type t = ''ORDER_BY''
             \<or> (tok_type t = ''COMMA'' \<and> (case r of N_ordering_terms l # r' \<Rightarrow> True | _ \<Rightarrow> False))
          then
            (if one_of la [''DESC'', ''ASC''] then Shift
             else if one_of la after_ordering_term then
               Reduce (N_ordering_term \<lparr>field = i, direction = Default_dir, nulls = None\<rparr> # rest)
             else Reject)
          else if tok_type t = ''FROM''
             \<or> (tok_type t = ''COMMA''
                 \<and> (case r of N_table_or_subquery a # r' \<Rightarrow> True | _ \<Rightarrow> False))
          then
            (if one_of la after_table then Reduce (N_table_or_subquery i # rest) else Reject)
          else if tok_type t = ''AS'' then
            (case r of
               N_result_column rc # r' \<Rightarrow>
                 if one_of la after_result_column
                 then Reduce (N_result_column (set_alias (identifier_value i) rc) # r')
                 else Reject
             | _ \<Rightarrow> Reject)
          else if one_of la after_expr then Reduce (N_expr i # rest) else Reject
      | N_join_clause j # r \<Rightarrow>
          if one_of la after_table then Reduce (N_table_or_subquery i # rest) else Reject
      | _ \<Rightarrow> if one_of la after_expr then Reduce (N_expr i # rest) else Reject)"

text \<open>
  An \<open>expr\<close> is on top. Above \<open>expr OP\<close> it completes a binary operation, and a binary
  operator as lookahead is settled by \<open>resolve\<close> with the precedence of \<open>OP\<close>; above a
  unary \<open>-\<close> or \<open>NOT\<close> the rule has the precedence of \<open>UMINUS\<close> or \<open>UNOT\<close>. In the other
  places a binary operator is shifted, and the \<open>expr\<close> ends a result column, an argument
  list, a parenthesis, a WHERE or HAVING clause or the condition of a join.
\<close>

definition lr_binary ::
  "token \<Rightarrow> node \<Rightarrow> node \<Rightarrow> symbol list \<Rightarrow> token option \<Rightarrow> action" where
  "lr_binary t l e r la =
     (if one_of la binary_operators then
        resolve (prec_of (tok_type t)) (la_type la)
          (N_expr (BinaryOperation (text_of (tok_value t)) l e None False) # r)
      else if one_of la after_expr then
        Reduce (N_expr (BinaryOperation (text_of (tok_value t)) l e None False) # r)
      else Reject)"

definition lr_unary :: "token \<Rightarrow> node \<Rightarrow> symbol list \<Rightarrow> token option \<Rightarrow> action" where
  "lr_unary t e r la =
     (if one_of la binary_operators then
        resolve (prec_of (if tok_type t = ''MINUS'' then ''UMINUS'' else ''UNOT'')) (la_type la)
          (N_expr (UnaryOperation (text_of (tok_value t)) e None False) # r)
      else if one_of la after_expr then
        Reduce (N_expr (UnaryOperation (text_of (tok_value t)) e None False) # r)
      else Reject)"

text \<open>The first \<open>expr\<close> of an argument list or of a GROUP BY list.\<close>

definition lr_first_of_list :: "node \<Rightarrow> symbol list \<Rightarrow> token option \<Rightarrow> action" where
  "lr_first_of_list e rest la =
     (if one_of la binary_operators then Shift
      else if one_of la [''COMMA''] then Shift
      else if one_of la (''RPAREN'' # after_select) then Reduce (N_expr_list [e] # rest)
      else Reject)"

text \<open>An \<open>expr\<close> above \<open>(\<close>: an argument when a name stands before the \<open>(\<close>.\<close>

definition lr_in_paren :: "node \<Rightarrow> symbol list \<Rightarrow> symbol list \<Rightarrow> token option \<Rightarrow> action" where
  "lr_in_paren e rest r la =
     (case r of
        Term f # r' \<Rightarrow>
          if tok_type f = ''ID'' then lr_first_of_list e rest la
          else if one_of la (''RPAREN'' # binary_operators) then Shift else Reject
      | _ \<Rightarrow> if one_of la (''RPAREN'' # binary_operators) then Shift else Reject)"

text \<open>An \<open>expr\<close> above a comma: one more result column, or one more of a list.\<close>

definition lr_after_comma ::
  "node \<Rightarrow> symbol list \<Rightarrow> symbol list \<Rightarrow> token option \<Rightarrow> action" where
  "lr_after_comma e rest r la =
     (if one_of la binary_operators then Shift
      else case r of
        N_result_columns rcs # r' \<Rightarrow>
          if one_of la after_result_column then Reduce (N_result_column e # rest) else Reject
      | N_expr e0 # r' \<Rightarrow>
          if one_of la ([''COMMA'', ''RPAREN''] @ after_select)
          then Reduce (N_enumeration [e0, e] # r')
          else Reject
      | N_enumeration l # r' \<Rightarrow>
          if one_of la ([''COMMA'', ''RPAREN''] @ after_select)
          then Reduce (N_enumeration (l @ [e]) # r')
          else Reject
      | _ \<Rightarrow> Reject)"

text \<open>An \<open>expr\<close> above \<open>WHERE\<close> or \<open>HAVING\<close>.\<close>

definition lr_condition ::
  "renderer \<Rightarrow> token \<Rightarrow> node \<Rightarrow> symbol list \<Rightarrow> token option \<Rightarrow> action" where
  "lr_condition R t e r la =
     (if one_of la binary_operators then Shift
      else case r of
        N_select sel # r' \<Rightarrow>
          if one_of la after_select then
            (if tok_type t = ''WHERE'' then lift_select (select_WHERE R sel e) r'
             else lift_select (select_HAVING R sel e) r')
          else Reject
      | _ \<Rightarrow> Reject)"

text \<open>An \<open>expr\<close> above \<open>ON\<close>: the condition of a join.\<close>

definition lr_join_condition :: "node \<Rightarrow> symbol list \<Rightarrow> token option \<Rightarrow> action" where
  "lr_join_condition e r la =
     (if one_of la binary_operators then Shift
      else case r of
        N_table_or_subquery b # r1 \<Rightarrow>
          (case r1 of
             N_join_clause j # r2 \<Rightarrow>
               (case r2 of
                  N_table_or_subquery a # r' \<Rightarrow>
                    if one_of la after_select
                    then Reduce (N_from_table (Join a b j (Some e) False) # r')
                    else Reject
                | _ \<Rightarrow> Reject)
           | _ \<Rightarrow> Reject)
      | _ \<Rightarrow> Reject)"

definition lr_expr :: "renderer \<Rightarrow> node \<Rightarrow> symbol list \<Rightarrow> token option \<Rightarrow> action" where
  "lr_expr R e rest la =
     (case rest of
        Term t # r \<Rightarrow>
          (let ty = tok_type t in
           if ty \<in> set binary_operators \<and> top_is_expr r then
             (case r of N_expr l # r' \<Rightarrow> lr_binary t l e r' la | _ \<Rightarrow> Reject)
           else if ty = ''MINUS'' \<or> ty = ''NOT'' then lr_unary t e r la
           else if ty = ''SELECT'' \<or> ty = ''DISTINCT'' then
             (if one_of la binary_operators then Shift
              else if one_of la after_result_column then Reduce (N_result_column e # rest)
              else Reject)
           else if ty = ''GROUP_BY'' then lr_first_of_list e rest la
           else if ty = ''LPAREN'' then lr_in_paren e rest r la
           else if ty = ''COMMA'' then lr_after_comma e rest r la
           else if ty = ''WHERE'' \<or> ty = ''HAVING'' then lr_condition R t e r la
           else if ty = ''ON'' then lr_join_condition e r la
           else Reject)
      | _ \<Rightarrow> Reject)"

text \<open>The lists: arguments, result columns, ordering terms.\<close>

definition lr_enumeration :: "node list \<Rightarrow> symbol list \<Rightarrow> token option \<Rightarrow> action" where
  "lr_enumeration l rest la =
     (if one_of la [''COMMA''] then Shift
      else if one_of la (''RPAREN'' # after_select) then Reduce (N_expr_list l # rest)
      else Reject)"

definition lr_expr_list ::
  "renderer \<Rightarrow> node list \<Rightarrow> symbol list \<Rightarrow> token option \<Rightarrow> action" where
  "lr_expr_list R l rest la =
     (case rest of
        Term t # r \<Rightarrow>
          if tok_type t = ''GROUP_BY'' then
            (case r of
               N_select sel # r' \<Rightarrow>
                 if one_of la after_select then lift_select (select_GROUP_BY R sel l) r'
                 else Reject
             | _ \<Rightarrow> Reject)
          else if tok_type t = ''LPAREN'' then
            (if one_of la [''RPAREN''] then Shift else Reject)
          else Reject
      | _ \<Rightarrow> Reject)"

definition lr_result_column :: "node \<Rightarrow> symbol list \<Rightarrow> token option \<Rightarrow> action" where
  "lr_result_column rc rest la =
     (if one_of la [''AS''] then Shift
      else if one_of la (''COMMA'' # after_select) then
        (case rest of
           Term t # N_result_columns rcs # r \<Rightarrow>
             if tok_type t = ''COMMA'' then Reduce (N_result_columns (rcs @ [rc]) # r)
             else Reduce (N_result_columns [rc] # rest)
         | _ \<Rightarrow> Reduce (N_result_columns [rc] # rest))
      else Reject)"

definition lr_result_columns :: "node list \<Rightarrow> symbol list \<Rightarrow> token option \<Rightarrow> action" where
  "lr_result_columns rcs rest la =
     (if one_of la [''COMMA''] then Shift
      else if one_of la after_select then
        (case rest of
           Term d # r \<Rightarrow>
             if tok_type d = ''DISTINCT'' then
               (case r of
                  Term sl # r' \<Rightarrow> Reduce (N_select (Select rcs True) # r')
                | _ \<Rightarrow> Reject)
             else if tok_type d = ''SELECT'' then Reduce (N_select (Select rcs False) # r)
             else Reject
         | _ \<Rightarrow> Reject)
      else Reject)"

definition lr_ordering_term ::
  "order_by_term \<Rightarrow> symbol list \<Rightarrow> token option \<Rightarrow> action" where
  "lr_ordering_term ot rest la =
     (if one_of la [''NULLS_FIRST'', ''NULLS_LAST''] then Shift
      else if one_of la (''COMMA'' # after_select) then
        (case rest of
           Term t # N_ordering_terms l # r \<Rightarrow>
             if tok_type t = ''COMMA'' then Reduce (N_ordering_terms (l @ [ot]) # r)
             else Reduce (N_ordering_terms [ot] # rest)
         | _ \<Rightarrow> Reduce (N_ordering_terms [ot] # rest))
      else Reject)"

definition lr_ordering_terms ::
  "order_by_term list \<Rightarrow> symbol list \<Rightarrow> token option \<Rightarrow> action" where
  "lr_ordering_terms l rest la =
     (if one_of la [''COMMA''] then Shift
      else if one_of la after_select then
        (case rest of
           Term t # N_select sel # r \<Rightarrow> lift_select (select_ORDER_BY sel l) r
         | _ \<Rightarrow> Reject)
      else Reject)"

text \<open>
  The FROM clause: one table, two tables with a comma (an implicit inner join), or two
  tables with a join keyword and maybe \<open>ON\<close> and a condition.
\<close>

definition lr_table_or_subquery :: "node \<Rightarrow> symbol list \<Rightarrow> token option \<Rightarrow> action" where
  "lr_table_or_subquery b rest la =
     (case rest of
        Term t # r \<Rightarrow>
          if tok_type t = ''FROM'' then
            (if one_of la (''COMMA'' # join_tokens) then Shift
             else if one_of la after_select then Reduce (N_from_table b # rest)
             else Reject)
          else
            (case r of
               N_table_or_subquery a # r' \<Rightarrow>
                 if one_of la after_select
                 then Reduce (N_from_table (Join a b ''INNER JOIN'' None True) # r')
                 else Reject
             | _ \<Rightarrow> Reject)
      | N_join_clause j # N_table_or_subquery a # r \<Rightarrow>
          if one_of la [''ON''] then Shift
          else if one_of la after_select then Reduce (N_from_table (Join a b j None False) # r)
          else Reject
      | _ \<Rightarrow> Reject)"

definition lr_from_table :: "node \<Rightarrow> symbol list \<Rightarrow> token option \<Rightarrow> action" where
  "lr_from_table f rest la =
     (case rest of
        Term t # N_select sel # r \<Rightarrow>
          if one_of la after_select then lift_select (select_FROM sel f) r else Reject
      | _ \<Rightarrow> Reject)"

text \<open>The whole decision. The start symbol is \<open>select\<close>, the first rule of the class.\<close>

definition lr_action :: "renderer \<Rightarrow> symbol list \<Rightarrow> token option \<Rightarrow> action" where
  "lr_action R st la =
     (case st of
        [] \<Rightarrow> if one_of la [''SELECT''] then Shift else Reject
      | x # rest \<Rightarrow>
          (case x of
             Term t \<Rightarrow> lr_token R t rest la
           | N_select sel \<Rightarrow>
               if rest \<noteq> [] then Reject
               else if one_of la [''$end''] then Accept sel
               else if one_of la after_select then Shift
               else Reject
           | N_ordering_terms l \<Rightarrow> lr_ordering_terms l rest la
           | N_ordering_term ot \<Rightarrow> lr_ordering_term ot rest la
           | N_from_table f \<Rightarrow> lr_from_table f rest la
           | N_table_or_subquery b \<Rightarrow> lr_table_or_subquery b rest la
           | N_join_clause j \<Rightarrow> if one_of la [''ID'', ''STAR''] then Shift else Reject
           | N_result_columns rcs \<Rightarrow> lr_result_columns rcs rest la
           | N_result_column rc \<Rightarrow> lr_result_column rc rest la
           | N_expr e \<Rightarrow> lr_expr R e rest la
           | N_expr_list l \<Rightarrow> lr_expr_list R l rest la
           | N_enumeration l \<Rightarrow> lr_enumeration l rest la
           | N_identifier i \<Rightarrow> lr_identifier i rest la
           | N_constant c \<Rightarrow> lr_constant R c rest la))"

subsection \<open>The parse loop\<close>

text \<open>
  The weight of a stack: every reduction makes it smaller, which is why the loop ends.
\<close>

definition rank :: "symbol \<Rightarrow> nat" where
  "rank x = (case x of
     Term t \<Rightarrow> 6 | N_select sel \<Rightarrow> 1 | N_ordering_terms l \<Rightarrow> 3 | N_ordering_term ot \<Rightarrow> 4
   | N_from_table f \<Rightarrow> 3 | N_table_or_subquery b \<Rightarrow> 4 | N_join_clause j \<Rightarrow> 5
   | N_result_columns rcs \<Rightarrow> 2 | N_result_column rc \<Rightarrow> 3 | N_expr e \<Rightarrow> 4
   | N_expr_list l \<Rightarrow> 3 | N_enumeration l \<Rightarrow> 4 | N_identifier i \<Rightarrow> 5 | N_constant c \<Rightarrow> 5)"

definition weight :: "symbol list \<Rightarrow> nat" where
  "weight st = sum_list (map rank st)"

definition decreasing :: "action \<Rightarrow> symbol list \<Rightarrow> bool" where
  "decreasing a st = (case a of Reduce st' \<Rightarrow> weight st' < weight st | _ \<Rightarrow> True)"

text \<open>
  The loop of the generated parser. It asks for the next token, and with that token as
  the lookahead it reduces rules, one after the other, until the automaton shifts the
  token, accepts, or raises; then it asks for the next token. So a \<open>LexError\<close> of the
  lexer comes up when the parser reaches it. \<open>reduce_all\<close> is the work for one lookahead.
\<close>

datatype outcome = Shifted "symbol list" | Accepted select | Failed error

function reduce_all :: "renderer \<Rightarrow> symbol list \<Rightarrow> token option \<Rightarrow> outcome" where
  "reduce_all R st la =
     (case lr_action R st la of
        Reduce st' \<Rightarrow> reduce_all R st' la
      | Shift \<Rightarrow> (case la of Some t \<Rightarrow> Shifted (Term t # st)
                  | None \<Rightarrow> Failed (syntax_error R None))
      | Raise e \<Rightarrow> Failed e
      | Accept sel \<Rightarrow> Accepted sel
      | Reject \<Rightarrow> Failed (syntax_error R la))"
  by pat_completeness auto
termination
proof -
  have ls: "lift_select r rest
              = (case r of Inl e \<Rightarrow> Raise e | Inr sel \<Rightarrow> Reduce (N_select sel # rest))"
    for r rest
    by (cases r) auto
  have rs: "decreasing (resolve p a red) st" if "decreasing (Reduce red) st" for red st p a
    using that by (simp add: resolve_def decreasing_def split: prod.split)
  have w1: "decreasing (lr_token R t rest la) (Term t # rest)" for R t rest la
    unfolding lr_token_def Let_def decreasing_def
    by (simp add: weight_def rank_def split: if_split list.split symbol.split)
  have w2: "decreasing (lr_constant R c rest la) (N_constant c # rest)" for R c rest la
    unfolding lr_constant_def Let_def decreasing_def ls
    by (simp add: weight_def rank_def split: if_split list.split symbol.split sum.split)
  have w3: "decreasing (lr_identifier c rest la) (N_identifier c # rest)" for c rest la
    unfolding lr_identifier_def Let_def decreasing_def ls
    by (simp add: weight_def rank_def split: if_split list.split symbol.split sum.split)
  have b1: "decreasing (lr_binary t l e r la) (N_expr e # Term t # N_expr l # r)"
    for t l e r la
  proof -
    have red: "decreasing
                 (Reduce (N_expr (BinaryOperation (text_of (tok_value t)) l e None False) # r))
                 (N_expr e # Term t # N_expr l # r)"
      by (simp add: decreasing_def weight_def rank_def)
    show ?thesis
      unfolding lr_binary_def using rs [OF red] red
      by (simp add: decreasing_def)
  qed
  have b2: "decreasing (lr_unary t e r la) (N_expr e # Term t # r)" for t e r la
  proof -
    have red: "decreasing
                 (Reduce (N_expr (UnaryOperation (text_of (tok_value t)) e None False) # r))
                 (N_expr e # Term t # r)"
      by (simp add: decreasing_def weight_def rank_def)
    show ?thesis
      unfolding lr_unary_def using rs [OF red] red
      by (simp add: decreasing_def)
  qed
  have b3: "decreasing (lr_first_of_list e rest la) (N_expr e # rest)" for e rest la
    unfolding lr_first_of_list_def
    by (simp add: decreasing_def weight_def rank_def)
  have b4: "decreasing (lr_in_paren e rest r la) (N_expr e # rest)" for e rest r la
    using b3 [of e rest la] unfolding lr_in_paren_def
    by (simp add: decreasing_def split: list.split symbol.split)
  have b5: "decreasing (lr_after_comma e (Term t # r) r la) (N_expr e # Term t # r)"
    for e t r la
    unfolding lr_after_comma_def
    by (simp add: decreasing_def weight_def rank_def split: list.split symbol.split)
  have b6: "decreasing (lr_condition R t e r la) (N_expr e # Term t # r)" for R t e r la
    unfolding lr_condition_def ls
    by (simp add: decreasing_def weight_def rank_def
          split: list.split symbol.split sum.split)
  have b7: "decreasing (lr_join_condition e r la) (N_expr e # Term t # r)" for e r la t
    unfolding lr_join_condition_def
    by (simp add: decreasing_def weight_def rank_def split: list.split symbol.split)
  have w4: "decreasing (lr_expr R e rest la) (N_expr e # rest)" for R e rest la
  proof (cases rest)
    case Nil
    then show ?thesis by (simp add: lr_expr_def decreasing_def)
  next
    case (Cons x r)
    show ?thesis
    proof (cases x)
      case (Term t)
      have sel: "decreasing
                   (if one_of la binary_operators then Shift
                    else if one_of la after_result_column
                    then Reduce (N_result_column e # Term t # r)
                    else Reject) (N_expr e # Term t # r)"
        by (simp add: decreasing_def weight_def rank_def)
      have bin: "decreasing
                   (case r of N_expr l # r' \<Rightarrow> lr_binary t l e r' la | _ \<Rightarrow> Reject)
                   (N_expr e # Term t # r)"
        using b1 by (auto simp: decreasing_def split: list.split symbol.split)
      have rej: "decreasing Reject (N_expr e # Term t # r)" by (simp add: decreasing_def)
      show ?thesis
        unfolding Cons Term lr_expr_def Let_def list.case symbol.case
        using sel bin rej b2 [of t e r la] b3 [of e "Term t # r" la]
          b4 [of e "Term t # r" r la] b5 [of e t r la] b6 [of R t e r la] b7 [of e r la t]
        by (simp only: split: if_split) simp
    qed (simp_all add: Cons lr_expr_def decreasing_def)
  qed
  have w5: "decreasing (lr_action R st la) st" for R st la
  proof (cases st)
    case Nil
    then show ?thesis by (simp add: lr_action_def decreasing_def split: if_split)
  next
    case (Cons x rest)
    show ?thesis
      unfolding Cons
      using w1 [of R _ rest la] w2 [of R _ rest la] w3 [of _ rest la] w4 [of R _ rest la]
      by (cases x)
         (simp_all add: lr_action_def lr_enumeration_def lr_expr_list_def
            lr_result_column_def lr_result_columns_def lr_ordering_term_def
            lr_ordering_terms_def lr_table_or_subquery_def lr_from_table_def ls
            decreasing_def weight_def rank_def
            split: if_split list.split symbol.split sum.split)
  qed
  have step: "weight st' < weight st" if "lr_action R st la = Reduce st'" for R st la st'
    using w5 [of R st la] that by (simp add: decreasing_def)
  show ?thesis
    by (relation "measure (\<lambda>(R, st, la). weight st)") (auto dest: step)
qed

text \<open>\<open>eof\<close> is the error that ends the tokens, if there is one.\<close>

fun parse_loop ::
  "renderer \<Rightarrow> symbol list \<Rightarrow> token list \<Rightarrow> error option \<Rightarrow> error + select" where
  "parse_loop R st [] eof =
     (case eof of
        Some e \<Rightarrow> Inl e
      | None \<Rightarrow>
          (case reduce_all R st None of
             Accepted sel \<Rightarrow> Inr sel
           | Failed e \<Rightarrow> Inl e
           | Shifted st' \<Rightarrow> Inl (syntax_error R None)))"
| "parse_loop R st (t # ts) eof =
     (case reduce_all R st (Some t) of
        Shifted st' \<Rightarrow> parse_loop R st' ts eof
      | Accepted sel \<Rightarrow> Inr sel
      | Failed e \<Rightarrow> Inl e)"

text \<open>\<open>SQLParser().parse(tokens)\<close>.\<close>

definition parse :: "renderer \<Rightarrow> token list \<times> error option \<Rightarrow> error + select" where
  "parse R tokens = parse_loop R [] (fst tokens) (snd tokens)"

text \<open>
  Modelled from the spec: the \<open>parse_sql\<close> of the tests is
  \<open>SQLParser().parse(SQLLexer().tokenize(sql))\<close> with the \<open>SQLLexer\<close> of \<open>sql_parser.lexer\<close>,
  which is not among the sources. \<open>parse_sql\<close> below is the spec's text to lexer to parser
  with the one lexer that is among the sources, the \<open>SQLLexer\<close> of \<open>mindsdb_sql\<close>: it pairs
  that lexer with the grammar of \<open>sql_parser\<close>. The pairing is right for a text whose tokens
  the two lexers name alike: keywords of the grammar, operators, punctuation, names and
  literals. It is not the program on a text with a join keyword or \<open>IS NOT\<close> (one token
  for the grammar, two for this lexer) or with a name like \<open>table\<close> that only this lexer
  reserves. \<open>sql_parser_parse_sql\<close> is the same with the lexer of \<open>sql_parser\<close> as modelled
  above.
\<close>

definition parse_sql :: "renderer \<Rightarrow> string \<Rightarrow> error + select" where
  "parse_sql R sql = parse R (tokenize sql)"


section \<open>A renderer, and the inputs of the tests\<close>

text \<open>
  Modelled from the spec: the rendering of a node to text (\<open>__str__\<close> of the AST classes,
  which are not among the sources). An identifier renders as its text, a constant as its
  literal (a string in double quotes, as \<open>test_select_constant\<close> expects), an operation
  with one space around the operator, a node with the parentheses flag in parentheses,
  an alias as \<open>expr AS alias\<close>.
\<close>

fun join_with :: "string \<Rightarrow> string list \<Rightarrow> string" where
  "join_with sep [] = []"
| "join_with sep [x] = x"
| "join_with sep (x # y # ys) = x @ sep @ join_with sep (y # ys)"

definition with_parentheses :: "bool \<Rightarrow> string \<Rightarrow> string" where
  "with_parentheses p s = (if p then ''('' @ s @ '')'' else s)"

definition with_alias :: "string option \<Rightarrow> string \<Rightarrow> string" where
  "with_alias a s = (case a of None \<Rightarrow> s | Some name \<Rightarrow> s @ '' AS '' @ name)"

fun constant_text :: "pyval \<Rightarrow> string" where
  "constant_text (VInt i) = str_int i"
| "constant_text (VFloat t) = t"
| "constant_text (VStr s) = [CHR 0x22] @ s @ [CHR 0x22]"

fun to_string :: "node \<Rightarrow> string" where
  "to_string (Identifier v a p) = with_alias a (with_parentheses p v)"
| "to_string (Constant v a p) = with_alias a (with_parentheses p (constant_text v))"
| "to_string (BinaryOperation oper l r a p) =
     with_alias a (with_parentheses p (to_string l @ '' '' @ oper @ '' '' @ to_string r))"
| "to_string (UnaryOperation oper x a p) =
     with_alias a (with_parentheses p (oper @ '' '' @ to_string x))"
| "to_string (Function oper xs a p) =
     with_alias a (with_parentheses p
       (oper @ ''('' @ join_with '', '' (map to_string xs) @ '')''))"
| "to_string (Join l r t c i) =
     (if i then to_string l @ '', '' @ to_string r
      else to_string l @ '' '' @ t @ '' '' @ to_string r
           @ (case c of None \<Rightarrow> [] | Some e \<Rightarrow> '' ON '' @ to_string e))"

definition spec_renderer :: renderer where
  "spec_renderer =
     \<lparr>node_str = to_string,
      list_str = (\<lambda>xs. ''['' @ join_with '', '' (map to_string xs) @ '']''),
      float_str = (\<lambda>t. t)\<rparr>"

text \<open>
  The seven components of \<open>test_select_order\<close>, and the query that a list of clauses
  stands for: \<open>SELECT column\<close> and then the components in the order of the list.
\<close>

fun component_text :: "clause \<Rightarrow> string" where
  "component_text FROM_c = ''FROM t''"
| "component_text WHERE_c = ''WHERE column = 1''"
| "component_text GROUP_BY_c = ''GROUP BY column''"
| "component_text HAVING_c = ''HAVING column != 2''"
| "component_text ORDER_BY_c = ''ORDER BY column ASC''"
| "component_text LIMIT_c = ''LIMIT 1''"
| "component_text OFFSET_c = ''OFFSET 1''"

definition component :: "clause \<Rightarrow> token list" where
  "component c = fst (tokenize (component_text c))"

definition select_order_query :: "clause list \<Rightarrow> token list \<times> error option" where
  "select_order_query perm =
     (fst (tokenize ''SELECT column'') @ concat (map component perm), None)"

text \<open>What the rules make of one component, and of a list of them, on a \<open>Select\<close>.\<close>

definition column :: node where
  "column = Identifier ''column'' None False"

fun attach :: "renderer \<Rightarrow> clause \<Rightarrow> select \<Rightarrow> error + select" where
  "attach R FROM_c sel = select_FROM sel (Identifier ''t'' None False)"
| "attach R WHERE_c sel =
     select_WHERE R sel (BinaryOperation ''='' column (Constant (VInt 1) None False) None False)"
| "attach R GROUP_BY_c sel = select_GROUP_BY R sel [column]"
| "attach R HAVING_c sel =
     select_HAVING R sel (BinaryOperation ''!='' column (Constant (VInt 2) None False) None False)"
| "attach R ORDER_BY_c sel =
     select_ORDER_BY sel [\<lparr>field = column, direction = ASC_dir, nulls = None\<rparr>]"
| "attach R LIMIT_c sel = select_LIMIT R sel (Constant (VInt 1) None False)"
| "attach R OFFSET_c sel = select_OFFSET R sel (Constant (VInt 1) None False)"

fun attach_all :: "renderer \<Rightarrow> clause list \<Rightarrow> select \<Rightarrow> error + select" where
  "attach_all R [] sel = Inr sel"
| "attach_all R (c # cs) sel =
     (case attach R c sel of Inl e \<Rightarrow> Inl e | Inr sel' \<Rightarrow> attach_all R cs sel')"

text \<open>The place of a clause in the canonical order.\<close>

fun position :: "clause \<Rightarrow> nat" where
  "position FROM_c = 0"
| "position WHERE_c = 1"
| "position GROUP_BY_c = 2"
| "position HAVING_c = 3"
| "position ORDER_BY_c = 4"
| "position LIMIT_c = 5"
| "position OFFSET_c = 6"

text \<open>The message of a clause that is out of order.\<close>

definition order_message :: "error \<Rightarrow> bool" where
  "order_message e =
     (case e of
        ParsingException m \<Rightarrow> sublist ''must go after'' m \<or> sublist '' requires '' m
      | LexError t i \<Rightarrow> False)"

text \<open>
  Words for the statements about literals: a text that is a run of one or more digits,
  and what the text after a literal begins with.
\<close>

definition digits :: "string \<Rightarrow> bool" where
  "digits ds = (ds \<noteq> [] \<and> list_all is_digit ds)"

definition starts_with_digit :: "string \<Rightarrow> bool" where
  "starts_with_digit s = (case s of [] \<Rightarrow> False | c # r \<Rightarrow> is_digit c)"

definition starts_with_id_char :: "string \<Rightarrow> bool" where
  "starts_with_id_char s = (case s of [] \<Rightarrow> False | c # r \<Rightarrow> is_id_char c)"

text \<open>A fractional part: a dot and then a digit.\<close>

definition has_fraction :: "string \<Rightarrow> bool" where
  "has_fraction s = (case s of [] \<Rightarrow> False | c # r \<Rightarrow> c = CHR ''.'' \<and> starts_with_digit r)"

text \<open>The two-word keywords: the name of the token and the words of its pattern.\<close>

definition two_word_keywords :: "(token_type \<times> string) list" where
  "two_word_keywords =
     [(''GROUP_BY'', ''GROUP BY''), (''ORDER_BY'', ''ORDER BY''),
      (''NULLS_FIRST'', ''NULLS FIRST''), (''NULLS_LAST'', ''NULLS LAST'')]"

text \<open>The lookahead of the parser: the next token, or \<open>None\<close> at the end.\<close>

definition peek :: "token list \<Rightarrow> token option" where
  "peek toks = (case toks of [] \<Rightarrow> None | t # ts \<Rightarrow> Some t)"

text \<open>The parser on the first part of its tokens: the stack when they are shifted.\<close>

fun feed :: "renderer \<Rightarrow> symbol list \<Rightarrow> token list \<Rightarrow> outcome" where
  "feed R st [] = Shifted st"
| "feed R st (t # ts) =
     (case reduce_all R st (Some t) of
        Shifted st' \<Rightarrow> feed R st' ts
      | Accepted sel \<Rightarrow> Accepted sel
      | Failed e \<Rightarrow> Failed e)"

text \<open>
  The stack of the parser when it has shifted the tokens of a component of
  \<open>test_select_order\<close> on top of a \<open>select\<close>: the rule of the clause is not yet reduced.
\<close>

fun pending :: "clause \<Rightarrow> select \<Rightarrow> symbol list" where
  "pending FROM_c sel =
     [Term (Token ''ID'' (VStr ''t'')), Term (Token ''FROM'' (VStr ''FROM'')), N_select sel]"
| "pending WHERE_c sel =
     [Term (Token ''INTEGER'' (VInt 1)), Term (Token ''EQUALS'' (VStr ''='')), N_expr column,
      Term (Token ''WHERE'' (VStr ''WHERE'')), N_select sel]"
| "pending GROUP_BY_c sel =
     [Term (Token ''ID'' (VStr ''column'')), Term (Token ''GROUP_BY'' (VStr ''GROUP BY'')),
      N_select sel]"
| "pending HAVING_c sel =
     [Term (Token ''INTEGER'' (VInt 2)), Term (Token ''NEQUALS'' (VStr ''!='')), N_expr column,
      Term (Token ''HAVING'' (VStr ''HAVING'')), N_select sel]"
| "pending ORDER_BY_c sel =
     [Term (Token ''ASC'' (VStr ''ASC'')), N_identifier column,
      Term (Token ''ORDER_BY'' (VStr ''ORDER BY'')), N_select sel]"
| "pending LIMIT_c sel =
     [Term (Token ''INTEGER'' (VInt 1)), Term (Token ''LIMIT'' (VStr ''LIMIT'')), N_select sel]"
| "pending OFFSET_c sel =
     [Term (Token ''INTEGER'' (VInt 1)), Term (Token ''OFFSET'' (VStr ''OFFSET'')), N_select sel]"

text \<open>
  The text of the query as \<open>test_select_order\<close> builds it:
  \<open>'SELECT column ' + '\n'.join(perm)\<close>.
\<close>

definition select_order_sql :: "clause list \<Rightarrow> string" where
  "select_order_sql perm = ''SELECT column '' @ join_with [CHR 0x0A] (map component_text perm)"

section \<open>Properties\<close>

declare reduce_all.simps [simp del]

subsection \<open>Expressions\<close>

text \<open>
  Claim C3. \<open>SELECT 1 + 2 * 3\<close> parses to a Select whose one target is \<open>1 + (2 * 3)\<close>: the
  multiplication is the right operand of the addition. \<open>SELECT a = b AND c = d\<close> parses to
  a target whose root is \<open>AND\<close>, with the two comparisons as its operands.
\<close>

theorem expression_precedence:
  "parse_sql R ''SELECT 1 + 2 * 3''
     = Inr (Select [BinaryOperation ''+'' (Constant (VInt 1) None False)
                      (BinaryOperation ''*'' (Constant (VInt 2) None False)
                         (Constant (VInt 3) None False) None False) None False] False)
   \<and> parse_sql R ''SELECT a = b AND c = d''
     = Inr (Select [BinaryOperation ''AND''
                      (BinaryOperation ''='' (Identifier ''a'' None False)
                         (Identifier ''b'' None False) None False)
                      (BinaryOperation ''='' (Identifier ''c'' None False)
                         (Identifier ''d'' None False) None False) None False] False)"
  by code_simp

text \<open>
  Claim C4. The claim is that \<open>%\<close> is left-associative and binds tighter than \<open>+\<close>. The
  precedence table of the class names \<open>STAR\<close> and \<open>DIVIDE\<close> but not \<open>MODULO\<close>, so the
  generator gives \<open>%\<close> level 0: \<open>SELECT 1 + 2 % 3\<close> parses to \<open>(1 + 2) % 3\<close> and
  \<open>SELECT 8 % 3 % 2\<close> to \<open>8 % (3 % 2)\<close>.
\<close>

theorem modulo_is_not_in_the_precedence_table:
  "map_of SQLParser_precedence ''MODULO'' = None
   \<and> parse_sql R ''SELECT 1 + 2 % 3''
     = Inr (Select [BinaryOperation ''%''
                      (BinaryOperation ''+'' (Constant (VInt 1) None False)
                         (Constant (VInt 2) None False) None False)
                      (Constant (VInt 3) None False) None False] False)
   \<and> parse_sql R ''SELECT 8 % 3 % 2''
     = Inr (Select [BinaryOperation ''%'' (Constant (VInt 8) None False)
                      (BinaryOperation ''%'' (Constant (VInt 3) None False)
                         (Constant (VInt 2) None False) None False) None False] False)"
  by code_simp

subsection \<open>The FROM clause\<close>


subsection \<open>Numeric literals\<close>

lemma first_match_pattern:
  "first_match rs b s = Some (name, n)
     \<Longrightarrow> \<exists>pat. (name, pat) \<in> set rs \<and> match_pattern pat b s = Some n"
  by (induction rs) (auto split: option.splits)

lemma INTEGER_entry: "(''INTEGER'', pat) \<in> set rules \<Longrightarrow> pat = Integer_pattern"
  by (simp add: rules_def)

lemma match_INTEGER_run:
  assumes "match_INTEGER s = Some n"
  shows "digits (take n s) \<and> prefix (take n s) s"
proof -
  from assms have ne: "takeWhile is_digit s \<noteq> []" and n: "n = length (takeWhile is_digit s)"
    by (auto simp: match_INTEGER_def Let_def split: if_splits)
  have tk: "take n s = takeWhile is_digit s"
    unfolding n by (rule takeWhile_eq_take [symmetric])
  have "list_all is_digit (takeWhile is_digit s)"
    by (auto simp: list_all_iff dest: set_takeWhileD)
  with ne tk show ?thesis
    by (simp add: digits_def takeWhile_is_prefix)
qed

lemma digits_not_negative: "digits ds \<Longrightarrow> 0 \<le> int_of_digits ds"
  by (cases ds) (auto simp: digits_def int_of_digits_def is_digit_def code_def)

lemma integer_tokens_from:
  "t \<in> set (fst (tokenize_from i b s)) \<Longrightarrow> tok_type t = ''INTEGER''
     \<Longrightarrow> \<exists>ds. digits ds \<and> sublist ds s \<and> tok_value t = VInt (int_of_digits ds)"
proof (induction i b s arbitrary: t rule: tokenize_from.induct)
  case (1 index before)
  then show ?case by simp
next
  case (2 index before c cs)
  show ?case
  proof (cases "c \<in> set ignore")
    case True
    with "2.prems" have "t \<in> set (fst (tokenize_from (index + 1) (Some c) cs))" by simp
    from "2.IH"(1) [OF True this "2.prems"(2)]
    obtain ds where "digits ds" "sublist ds cs" "tok_value t = VInt (int_of_digits ds)"
      by blast
    then show ?thesis by (auto simp: sublist_Cons_right)
  next
    case False
    show ?thesis
    proof (cases "master_re before (c # cs)")
      case None
      with False 2 show ?thesis by simp
    next
      case (Some hit)
      obtain name n where hit: "hit = (name, n)" by (cases hit)
      from "2.prems" False Some hit
      consider "t = Token name (token_value name (take n (c # cs)))"
        | "t \<in> set (fst (tokenize_from (index + n) (Some (last (take n (c # cs))))
                            (drop n (c # cs))))"
        by (auto split: prod.splits)
      then show ?thesis
      proof cases
        case 1
        with "2.prems"(2) have nm: "name = ''INTEGER''" by simp
        from Some hit nm have "first_match rules before (c # cs) = Some (''INTEGER'', n)"
          by (simp add: master_re_def)
        from first_match_pattern [OF this]
        obtain pat where pat: "(''INTEGER'', pat) \<in> set rules"
          and mp: "match_pattern pat before (c # cs) = Some n"
          by blast
        from INTEGER_entry [OF pat] mp
        have "match_INTEGER (c # cs) = Some n" by simp
        from match_INTEGER_run [OF this]
        have d: "digits (take n (c # cs))" and p: "prefix (take n (c # cs)) (c # cs)"
          by simp_all
        from p have "sublist (take n (c # cs)) (c # cs)" by (rule prefix_imp_sublist)
        moreover from 1 nm have "tok_value t = VInt (int_of_digits (take n (c # cs)))"
          by (simp add: token_value_def)
        ultimately show ?thesis using d by blast
      next
        case 2
        from "2.IH"(2) [OF False Some hit [symmetric] 2 "2.prems"(2)]
        obtain ds where ds: "digits ds" "sublist ds (drop n (c # cs))"
          "tok_value t = VInt (int_of_digits ds)"
          by blast
        have "suffix (drop n (c # cs)) (c # cs)" by (rule suffix_drop)
        then have "sublist (drop n (c # cs)) (c # cs)" by (rule suffix_imp_sublist)
        with ds(2) have "sublist ds (c # cs)" by (rule sublist_order.order_trans)
        with ds show ?thesis by blast
      qed
    qed
  qed
qed

lemma master_re_minus: "master_re b (CHR ''-'' # s) = Some (''MINUS'', 1)"
  by (simp add: master_re_def rules_def match_keyword_def match_literal_def ci_eq_def
        lower_code_def is_upper_def code_def)

text \<open>
  Claim C10. For every input, the text of every \<open>INTEGER\<close> token of the lexer is a run of
  one or more digits of the input, with no sign, so the value of the token is not
  negative; and where the lexer stands at \<open>-\<close>, it yields a \<open>MINUS\<close> token for that one
  character, whatever comes before and after. \<open>int\<close> itself reads a sign: \<open>int('-5')\<close> is
  \<open>-5\<close>. So \<open>SELECT -5\<close> reaches the parser as \<open>SELECT\<close>, \<open>MINUS\<close>, \<open>INTEGER 5\<close>, and parses
  to a Select whose one target is the unary operation \<open>-\<close> on the constant 5.
\<close>

theorem no_negative_numeric_literals:
  "(\<forall>t \<in> set (fst (tokenize sql)). tok_type t = ''INTEGER''
        \<longrightarrow> (\<exists>ds. digits ds \<and> sublist ds sql \<and> tok_value t = VInt (int_of_digits ds)
                  \<and> 0 \<le> int_of_digits ds))
   \<and> tokenize_from i b (CHR ''-'' # s)
       = (case tokenize_from (i + 1) (Some (CHR ''-'')) s of
            (toks, err) \<Rightarrow> (Token ''MINUS'' (VStr ''-'') # toks, err))
   \<and> int_of_digits ''-5'' = - 5
   \<and> tokenize ''SELECT -5''
       = ([Token ''SELECT'' (VStr ''SELECT''), Token ''MINUS'' (VStr ''-''),
           Token ''INTEGER'' (VInt 5)], None)
   \<and> parse_sql R ''SELECT -5''
       = Inr (Select [UnaryOperation ''-'' (Constant (VInt 5) None False) None False] False)"
proof -
  have "\<forall>t \<in> set (fst (tokenize sql)). tok_type t = ''INTEGER''
          \<longrightarrow> (\<exists>ds. digits ds \<and> sublist ds sql \<and> tok_value t = VInt (int_of_digits ds)
                  \<and> 0 \<le> int_of_digits ds)"
    unfolding tokenize_def using integer_tokens_from digits_not_negative by blast
  moreover have "tokenize_from i b (CHR ''-'' # s)
       = (case tokenize_from (i + 1) (Some (CHR ''-'')) s of
            (toks, err) \<Rightarrow> (Token ''MINUS'' (VStr ''-'') # toks, err))"
    by (simp add: master_re_minus ignore_def token_value_def)
  moreover have "int_of_digits ''-5'' = - 5" by code_simp
  moreover have "tokenize ''SELECT -5''
       = ([Token ''SELECT'' (VStr ''SELECT''), Token ''MINUS'' (VStr ''-''),
           Token ''INTEGER'' (VInt 5)], None)"
    by code_simp
  moreover have "parse_sql R ''SELECT -5''
       = Inr (Select [UnaryOperation ''-'' (Constant (VInt 5) None False) None False] False)"
    by code_simp
  ultimately show ?thesis by blast
qed

theorem no_negative_numeric_literals_witness:
  "Token ''INTEGER'' (VInt 12) \<in> set (fst (tokenize ''SELECT 7 - 12''))
   \<and> tok_type (Token ''INTEGER'' (VInt 12)) = ''INTEGER''
   \<and> (\<exists>ds. digits ds \<and> sublist ds ''SELECT 7 - 12''
           \<and> tok_value (Token ''INTEGER'' (VInt 12)) = VInt (int_of_digits ds)
           \<and> 0 \<le> int_of_digits ds)"
proof -
  have m: "Token ''INTEGER'' (VInt 12) \<in> set (fst (tokenize ''SELECT 7 - 12''))"
    by code_simp
  have ty: "tok_type (Token ''INTEGER'' (VInt 12)) = ''INTEGER''" by simp
  from no_negative_numeric_literals [where sql = "''SELECT 7 - 12''"] m ty
  show ?thesis by blast
qed

subsection \<open>The lexer on numeric literals\<close>

lemma code_inj: "code c = code d \<longleftrightarrow> c = d"
  by (simp add: code_def)

lemma digit_classes:
  "is_digit d \<Longrightarrow> is_id_char d \<and> \<not> is_id_alpha d \<and> \<not> is_letter d \<and> d \<notin> set ignore
     \<and> d \<noteq> CHR 0x60 \<and> d \<noteq> CHR ''.'' \<and> lower_code d = code d"
  by (auto simp: is_digit_def is_id_char_def is_id_alpha_def is_letter_def is_upper_def
        is_lower_def ignore_def lower_code_def code_def)

lemma lower_code_not_digit:
  "\<not> is_digit p \<Longrightarrow> \<not> (48 \<le> lower_code p \<and> lower_code p \<le> 57)"
  by (auto simp: is_digit_def lower_code_def is_upper_def)

lemma ci_eq_digit: "is_digit d \<Longrightarrow> \<not> is_digit p \<Longrightarrow> \<not> ci_eq p d"
  using lower_code_not_digit [of p] digit_classes [of d]
  by (auto simp: ci_eq_def is_digit_def)

lemma keyword_not_digit:
  "is_digit d \<Longrightarrow> w \<noteq> [] \<Longrightarrow> \<not> is_digit (hd w)
     \<Longrightarrow> match_keyword w b (d # s) = None \<and> match_literal w (d # s) = None"
  by (cases w) (auto simp: match_keyword_def match_literal_def ci_eq_digit)

lemma first_match_skip_digit:
  assumes "is_digit d"
    and "\<forall>(name, pat) \<in> set rs. \<exists>w. (pat = Keyword w \<or> pat = Literal w) \<and> w \<noteq> [] \<and> \<not> is_digit (hd w)"
  shows "first_match (rs @ rs') b (d # s) = first_match rs' b (d # s)"
  using assms(2)
proof (induction rs)
  case Nil
  then show ?case by simp
next
  case (Cons r rs)
  obtain name pat where r: "r = (name, pat)" by (cases r)
  from Cons.prems r obtain w where w: "pat = Keyword w \<or> pat = Literal w" "w \<noteq> []" "\<not> is_digit (hd w)"
    by auto
  from keyword_not_digit [OF assms(1) w(2,3)] w(1)
  have "match_pattern pat b (d # s) = None" by auto
  with Cons r show ?case by simp
qed

lemma rules_split:
  "rules = take 83 rules @ [(''ID'', Id_pattern), (''FLOAT'', Float_pattern),
                            (''INTEGER'', Integer_pattern), (''STRING'', String_pattern)]"
  by (simp add: rules_def)

lemma rules_before_ID:
  "\<forall>(name, pat) \<in> set (take 83 rules).
      \<exists>w. (pat = Keyword w \<or> pat = Literal w) \<and> w \<noteq> [] \<and> \<not> is_digit (hd w)"
  by (simp add: rules_def is_digit_def code_def)

lemma takeWhile_digits:
  "list_all is_digit ds \<Longrightarrow> \<not> starts_with_digit rest \<Longrightarrow> takeWhile is_digit (ds @ rest) = ds"
  by (induction ds) (auto simp: starts_with_digit_def split: list.splits)

lemma takeWhile_id_digits:
  "list_all is_digit ds \<Longrightarrow> \<not> starts_with_id_char rest
     \<Longrightarrow> takeWhile is_id_char (ds @ rest) = ds"
  by (induction ds) (auto simp: starts_with_id_char_def digit_classes split: list.splits)

lemma filter_alpha_digits: "list_all is_digit ds \<Longrightarrow> filter is_id_alpha ds = []"
  by (induction ds) (auto simp: digit_classes)

lemma match_ID_digits:
  assumes "digits ds" "\<not> starts_with_id_char rest"
  shows "match_ID (ds @ rest) = None"
proof -
  from assms(1) obtain d ds' where ds: "ds = d # ds'" and d: "is_digit d"
    by (cases ds) (auto simp: digits_def)
  from assms have run: "takeWhile is_id_char (ds @ rest) = ds"
    by (simp add: takeWhile_id_digits digits_def)
  from assms have "filter is_id_alpha ds = []" by (simp add: filter_alpha_digits digits_def)
  with run d ds have "match_segment (ds @ rest) = None"
    by (simp add: match_segment_def digit_classes)
  then show ?thesis by (simp add: match_ID_def)
qed

lemma dot_not_id_char: "\<not> starts_with_id_char (CHR ''.'' # s)"
  by (simp add: starts_with_id_char_def is_id_char_def is_id_alpha_def is_letter_def
        is_upper_def is_lower_def is_digit_def code_def)

lemma match_FLOAT_literal:
  assumes "digits ds" "digits fs" "\<not> starts_with_digit rest"
  shows "match_FLOAT (ds @ ''.'' @ fs @ rest) = Some (length ds + 1 + length fs)"
proof -
  have nd: "\<not> starts_with_digit (CHR ''.'' # fs @ rest)"
    by (simp add: starts_with_digit_def is_digit_def code_def)
  from assms(1) have ip: "takeWhile is_digit (ds @ CHR ''.'' # fs @ rest) = ds"
    using takeWhile_digits [OF _ nd] by (simp add: digits_def)
  from assms(2,3) have fp: "takeWhile is_digit (fs @ rest) = fs"
    by (simp add: takeWhile_digits digits_def)
  from assms(1,2) ip fp show ?thesis
    by (simp add: match_FLOAT_def digits_def)
qed

lemma match_FLOAT_integer:
  assumes "digits ds" "\<not> starts_with_digit rest" "\<not> has_fraction rest"
  shows "match_FLOAT (ds @ rest) = None"
proof -
  from assms(1,2) have ip: "takeWhile is_digit (ds @ rest) = ds"
    by (simp add: takeWhile_digits digits_def)
  show ?thesis
  proof (cases rest)
    case Nil
    with ip have tw: "takeWhile is_digit ds = ds" by simp
    from Nil show ?thesis by (simp add: match_FLOAT_def tw)
  next
    case (Cons c r)
    with assms(3) have "c \<noteq> CHR ''.'' \<or> takeWhile is_digit r = []"
      by (cases r) (auto simp: has_fraction_def starts_with_digit_def)
    with ip Cons show ?thesis by (auto simp: match_FLOAT_def Let_def)
  qed
qed

lemma match_INTEGER_digits:
  assumes "digits ds" "\<not> starts_with_digit rest"
  shows "match_INTEGER (ds @ rest) = Some (length ds)"
  using assms by (simp add: match_INTEGER_def takeWhile_digits digits_def)

lemma master_re_digit:
  assumes "is_digit d"
  shows "master_re b (d # s)
       = (case match_ID (d # s) of
            Some n \<Rightarrow> Some (''ID'', n)
          | None \<Rightarrow>
             (case match_FLOAT (d # s) of
                Some n \<Rightarrow> Some (''FLOAT'', n)
              | None \<Rightarrow>
                 (case match_INTEGER (d # s) of
                    Some n \<Rightarrow> Some (''INTEGER'', n)
                  | None \<Rightarrow> (case match_STRING (d # s) of Some n \<Rightarrow> Some (''STRING'', n)
                              | None \<Rightarrow> None))))"
proof -
  have "master_re b (d # s)
      = first_match (take 83 rules @ [(''ID'', Id_pattern), (''FLOAT'', Float_pattern),
                            (''INTEGER'', Integer_pattern), (''STRING'', String_pattern)]) b (d # s)"
    unfolding master_re_def using rules_split by simp
  also have "\<dots> = first_match [(''ID'', Id_pattern), (''FLOAT'', Float_pattern),
                            (''INTEGER'', Integer_pattern), (''STRING'', String_pattern)] b (d # s)"
    by (rule first_match_skip_digit [OF assms rules_before_ID])
  finally show ?thesis by (simp split: option.splits)
qed

lemma starts_id_digit: "\<not> starts_with_id_char rest \<Longrightarrow> \<not> starts_with_digit rest"
  by (auto simp: starts_with_id_char_def starts_with_digit_def digit_classes split: list.splits)

text \<open>
  Claim C9. Where the lexer stands at a run of digits that is followed by a dot and
  another run of digits, it yields one \<open>FLOAT\<close> token for the whole literal, with the
  literal as its value (and so never \<open>INTEGER\<close>, \<open>DOT\<close>, \<open>INTEGER\<close>). Where it stands at a
  bare run of digits, with no identifier character and no fractional part after it, it
  yields one \<open>INTEGER\<close> token with the value of the digits.
\<close>

theorem float_and_integer_literals:
  "digits ds \<Longrightarrow>
     (digits fs \<and> \<not> starts_with_digit rest \<longrightarrow>
        tokenize_from i b (ds @ ''.'' @ fs @ rest)
          = (case tokenize_from (i + (length ds + 1 + length fs)) (Some (last fs)) rest of
               (toks, err) \<Rightarrow> (Token ''FLOAT'' (VFloat (ds @ ''.'' @ fs)) # toks, err)))
   \<and> (\<not> starts_with_id_char rest \<and> \<not> has_fraction rest \<longrightarrow>
        tokenize_from i b (ds @ rest)
          = (case tokenize_from (i + length ds) (Some (last ds)) rest of
               (toks, err) \<Rightarrow> (Token ''INTEGER'' (VInt (int_of_digits ds)) # toks, err)))"
proof -
  assume ds: "digits ds"
  then obtain d ds' where dds: "ds = d # ds'" and d: "is_digit d"
    by (cases ds) (auto simp: digits_def)
  have float: "tokenize_from i b (ds @ ''.'' @ fs @ rest)
          = (case tokenize_from (i + (length ds + 1 + length fs)) (Some (last fs)) rest of
               (toks, err) \<Rightarrow> (Token ''FLOAT'' (VFloat (ds @ ''.'' @ fs)) # toks, err))"
    if fs: "digits fs" and rest: "\<not> starts_with_digit rest"
  proof -
    have "match_ID (ds @ ''.'' @ fs @ rest) = None"
      using match_ID_digits [OF ds dot_not_id_char] by simp
    moreover note match_FLOAT_literal [OF ds fs rest]
    ultimately have m: "master_re b (d # ds' @ ''.'' @ fs @ rest)
                          = Some (''FLOAT'', length ds + 1 + length fs)"
      using master_re_digit [OF d, of b "ds' @ ''.'' @ fs @ rest"] dds by simp
    from fs have "fs \<noteq> []" by (simp add: digits_def)
    then have l: "last (ds @ ''.'' @ fs) = last fs" by simp
    have tk: "take (length ds + 1 + length fs) (ds @ ''.'' @ fs @ rest) = ds @ ''.'' @ fs"
      by simp
    have dr: "drop (length ds + 1 + length fs) (ds @ ''.'' @ fs @ rest) = rest"
      by simp
    have "tokenize_from i b (d # ds' @ ''.'' @ fs @ rest)
        = (case tokenize_from (i + (length ds + 1 + length fs))
                  (Some (last (take (length ds + 1 + length fs) (d # ds' @ ''.'' @ fs @ rest))))
                  (drop (length ds + 1 + length fs) (d # ds' @ ''.'' @ fs @ rest)) of
             (toks, err) \<Rightarrow>
               (Token ''FLOAT'' (token_value ''FLOAT''
                   (take (length ds + 1 + length fs) (d # ds' @ ''.'' @ fs @ rest))) # toks, err))"
      using d m by (simp add: digit_classes del: take_append drop_append)
    with tk dr l dds show ?thesis
      by (simp add: token_value_def del: take_append drop_append)
  qed
  have integer: "tokenize_from i b (ds @ rest)
          = (case tokenize_from (i + length ds) (Some (last ds)) rest of
               (toks, err) \<Rightarrow> (Token ''INTEGER'' (VInt (int_of_digits ds)) # toks, err))"
    if rest: "\<not> starts_with_id_char rest" and frac: "\<not> has_fraction rest"
  proof -
    note nd = starts_id_digit [OF rest]
    have "match_ID (ds @ rest) = None" by (rule match_ID_digits [OF ds rest])
    moreover note match_FLOAT_integer [OF ds nd frac] match_INTEGER_digits [OF ds nd]
    ultimately have m: "master_re b (d # ds' @ rest) = Some (''INTEGER'', length ds)"
      using master_re_digit [OF d, of b "ds' @ rest"] dds by simp
    have "tokenize_from i b (d # ds' @ rest)
        = (case tokenize_from (i + length ds)
                  (Some (last (take (length ds) (d # ds' @ rest))))
                  (drop (length ds) (d # ds' @ rest)) of
             (toks, err) \<Rightarrow>
               (Token ''INTEGER'' (token_value ''INTEGER''
                   (take (length ds) (d # ds' @ rest))) # toks, err))"
      using d m by (simp add: digit_classes del: take_append drop_append)
    with dds show ?thesis by (simp add: token_value_def)
  qed
  from float integer show ?thesis by blast
qed

theorem float_and_integer_literals_witness:
  "digits ''12'' \<and> digits ''5'' \<and> \<not> starts_with_digit '' x''
   \<and> \<not> starts_with_id_char '' x'' \<and> \<not> has_fraction '' x''
   \<and> tokenize ''12.5 x'' = ([Token ''FLOAT'' (VFloat ''12.5''), Token ''ID'' (VStr ''x'')], None)
   \<and> tokenize ''12 x'' = ([Token ''INTEGER'' (VInt 12), Token ''ID'' (VStr ''x'')], None)"
proof -
  have h1: "digits ''12''" and h2: "digits ''5''" and h3: "\<not> starts_with_digit '' x''"
    and h4: "\<not> starts_with_id_char '' x''" and h5: "\<not> has_fraction '' x''"
    by code_simp+
  note t = float_and_integer_literals [OF h1, of "''5''" "'' x''" 0 None]
  have r1: "tokenize_from (0 + (length ''12'' + 1 + length ''5'')) (Some (last ''5'')) '' x''
              = ([Token ''ID'' (VStr ''x'')], None)"
    by code_simp
  have r2: "tokenize_from (0 + length ''12'') (Some (last ''12'')) '' x''
              = ([Token ''ID'' (VStr ''x'')], None)"
    by code_simp
  have v: "int_of_digits ''12'' = 12" by code_simp
  from t h2 h3 have "tokenize_from 0 None (''12'' @ ''.'' @ ''5'' @ '' x'')
      = (case tokenize_from (0 + (length ''12'' + 1 + length ''5'')) (Some (last ''5'')) '' x'' of
           (toks, err) \<Rightarrow> (Token ''FLOAT'' (VFloat (''12'' @ ''.'' @ ''5'')) # toks, err))"
    by blast
  then have f: "tokenize ''12.5 x''
      = ([Token ''FLOAT'' (VFloat ''12.5''), Token ''ID'' (VStr ''x'')], None)"
    unfolding r1 tokenize_def by (simp only: append.simps prod.case)
  from t h4 h5 have "tokenize_from 0 None (''12'' @ '' x'')
      = (case tokenize_from (0 + length ''12'') (Some (last ''12'')) '' x'' of
           (toks, err) \<Rightarrow> (Token ''INTEGER'' (VInt (int_of_digits ''12'')) # toks, err))"
    by blast
  then have g: "tokenize ''12 x''
      = ([Token ''INTEGER'' (VInt 12), Token ''ID'' (VStr ''x'')], None)"
    unfolding r2 v tokenize_def by (simp only: append.simps prod.case)
  from h1 h2 h3 h4 h5 f g show ?thesis by blast
qed

subsection \<open>The lexer on two-word keywords\<close>

lemma prefix_ci_conv: "prefix_ci w s = prefix (map lower_code w) (map lower_code s)"
  by (induction w s rule: prefix_ci.induct) (auto simp: ci_eq_def)

lemma no_prefix_no_match:
  "\<not> prefix (map lower_code w) (map lower_code s)
     \<Longrightarrow> match_keyword w b s = None \<and> match_literal w s = None"
  by (simp add: match_keyword_def match_literal_def prefix_ci_conv)

lemma first_match_skip:
  "\<forall>(name, pat) \<in> set rs. match_pattern pat b s = None
     \<Longrightarrow> first_match (rs @ rs') b s = first_match rs' b s"
  by (induction rs) auto

lemma letter_classes:
  "is_letter k \<Longrightarrow> lower_code c = lower_code k \<Longrightarrow> is_word c \<and> c \<notin> set ignore"
  by (auto simp: is_word_def is_letter_def is_upper_def is_lower_def lower_code_def ignore_def
        code_def split: if_splits)

lemma keyword_at:
  assumes rules: "rules = pre @ (name, Keyword kw) # post"
    and pre: "\<forall>(n, pat) \<in> set pre. \<exists>w. (pat = Keyword w \<or> pat = Literal w)
                \<and> (\<forall>X. \<not> prefix (map lower_code w) (map lower_code kw @ X))"
    and kw: "kw \<noteq> []" "is_letter (hd kw)" "is_letter (last kw)"
    and name: "name \<noteq> ''FLOAT''" "name \<noteq> ''INTEGER''" "name \<noteq> ''STRING''"
    and phrase: "map lower_code phrase = map lower_code kw"
    and before: "\<not> word_at b" and after: "\<not> word_at (head_opt rest)"
  shows "tokenize_from i b (phrase @ rest)
       = (case tokenize_from (i + length phrase) (Some (last phrase)) rest of
            (toks, err) \<Rightarrow> (Token name (VStr phrase) # toks, err))"
proof -
  from phrase have len: "length phrase = length kw" by (metis length_map)
  with kw(1) obtain c cs where pc: "phrase = c # cs" by (cases phrase) auto
  from phrase pc kw(1) have c: "lower_code c = lower_code (hd kw)" by (cases kw) auto
  note cw = letter_classes [OF kw(2) c]
  have "\<forall>(n, pat) \<in> set pre. match_pattern pat b (phrase @ rest) = None"
  proof (clarify)
    fix n pat assume "(n, pat) \<in> set pre"
    with pre obtain w where w: "pat = Keyword w \<or> pat = Literal w"
      and np: "\<not> prefix (map lower_code w) (map lower_code kw @ map lower_code rest)"
      by blast
    from np phrase have "\<not> prefix (map lower_code w) (map lower_code (phrase @ rest))"
      by simp
    from no_prefix_no_match [OF this] w show "match_pattern pat b (phrase @ rest) = None"
      by auto
  qed
  then have fm: "master_re b (phrase @ rest)
      = first_match ((name, Keyword kw) # post) b (phrase @ rest)"
    unfolding master_re_def rules by (rule first_match_skip)
  have p: "prefix_ci kw (phrase @ rest)"
    using phrase by (simp add: prefix_ci_conv)
  have b1: "boundary b (head_opt (phrase @ rest))"
    using before cw pc by (simp add: boundary_def)
  from phrase kw(1) pc have "lower_code (last phrase) = lower_code (last kw)"
    by (metis last_map list.map_disc_iff)
  from letter_classes [OF kw(3) this] have lw: "is_word (last phrase)" by simp
  have "is_word (last kw)"
    using letter_classes [OF kw(3), of "last kw"] by simp
  then have b2: "boundary (Some (last kw)) (head_opt (drop (length kw) (phrase @ rest)))"
    using after len by (simp add: boundary_def)
  from p b1 b2 kw(1) have "match_keyword kw b (phrase @ rest) = Some (length kw)"
    by (simp add: match_keyword_def)
  with fm len have m: "master_re b (c # cs @ rest) = Some (name, length phrase)"
    using pc by simp
  have "tokenize_from i b (c # cs @ rest)
      = (case tokenize_from (i + length phrase)
              (Some (last (take (length phrase) (c # cs @ rest))))
              (drop (length phrase) (c # cs @ rest)) of
           (toks, err) \<Rightarrow>
             (Token name (token_value name (take (length phrase) (c # cs @ rest))) # toks, err))"
    using cw m by (simp del: take_append drop_append)
  moreover have "take (length phrase) (c # cs @ rest) = phrase"
    and "drop (length phrase) (c # cs @ rest) = rest"
    using pc by simp_all
  ultimately show ?thesis
    using name pc by (simp add: token_value_def del: take_append drop_append)
qed

lemma two_word_entries:
  "rules = take 43 rules @ (''GROUP_BY'', Keyword ''GROUP BY'') # drop 44 rules"
  "rules = take 45 rules @ (''ORDER_BY'', Keyword ''ORDER BY'') # drop 46 rules"
  "rules = take 33 rules @ (''NULLS_FIRST'', Keyword ''NULLS FIRST'') # drop 34 rules"
  "rules = take 34 rules @ (''NULLS_LAST'', Keyword ''NULLS LAST'') # drop 35 rules"
  by (simp_all add: rules_def)

lemma before_GROUP_BY:
  "\<forall>(n, pat) \<in> set (take 43 rules). \<exists>w. (pat = Keyword w \<or> pat = Literal w)
      \<and> (\<forall>X. \<not> prefix (map lower_code w) (map lower_code ''GROUP BY'' @ X))"
  by (simp add: rules_def lower_code_def is_upper_def code_def)

lemma before_ORDER_BY:
  "\<forall>(n, pat) \<in> set (take 45 rules). \<exists>w. (pat = Keyword w \<or> pat = Literal w)
      \<and> (\<forall>X. \<not> prefix (map lower_code w) (map lower_code ''ORDER BY'' @ X))"
  by (simp add: rules_def lower_code_def is_upper_def code_def)

lemma before_NULLS_FIRST:
  "\<forall>(n, pat) \<in> set (take 33 rules). \<exists>w. (pat = Keyword w \<or> pat = Literal w)
      \<and> (\<forall>X. \<not> prefix (map lower_code w) (map lower_code ''NULLS FIRST'' @ X))"
  by (simp add: rules_def lower_code_def is_upper_def code_def)

lemma before_NULLS_LAST:
  "\<forall>(n, pat) \<in> set (take 34 rules). \<exists>w. (pat = Keyword w \<or> pat = Literal w)
      \<and> (\<forall>X. \<not> prefix (map lower_code w) (map lower_code ''NULLS LAST'' @ X))"
  by (simp add: rules_def lower_code_def is_upper_def code_def)

lemma two_word_letters:
  "is_letter (CHR ''G'')" "is_letter (CHR ''O'')" "is_letter (CHR ''N'')"
  "is_letter (CHR ''Y'')" "is_letter (CHR ''T'')"
  by (simp_all add: is_letter_def is_upper_def code_def)

text \<open>
  A letter of the Latin-1 supplement is a word character: after \<open>GROUP BY\<close> it leaves no
  word boundary, and the two words become names. The multiplication sign is none.
\<close>

lemma word_character_after_phrase:
  "tokenize (''GROUP BY'' @ [CHR 0xE9])
     = ([Token ''ID'' (VStr ''GROUP''), Token ''ID'' (VStr ''BY'')],
        Some (LexError [CHR 0xE9] 8))
   \<and> tokenize (''GROUP BY'' @ [CHR 0xD7])
     = ([Token ''GROUP_BY'' (VStr ''GROUP BY'')], Some (LexError [CHR 0xD7] 8))"
  by code_simp

text \<open>
  Claim C8, as stated, says that every input that holds \<open>GROUP BY\<close> (or one of the other
  three phrases) between word boundaries gives one token for the phrase. In
  \<open>SELECT c FROM s.GROUP BY c\<close> the phrase stands between word boundaries, yet the
  identifier pattern takes \<open>s.GROUP\<close> as one dotted name and \<open>BY\<close> becomes a name too:
  there is no \<open>GROUP_BY\<close> token.
\<close>

theorem two_word_keyword_counterexample:
  "boundary (Some (CHR ''.'')) (Some (CHR ''G''))
   \<and> boundary (Some (CHR ''Y'')) (Some (CHR '' ''))
   \<and> tokenize ''SELECT c FROM s.GROUP BY c''
       = ([Token ''SELECT'' (VStr ''SELECT''), Token ''ID'' (VStr ''c''),
           Token ''FROM'' (VStr ''FROM''), Token ''ID'' (VStr ''s.GROUP''),
           Token ''ID'' (VStr ''BY''), Token ''ID'' (VStr ''c'')], None)"
  by code_simp

text \<open>
  Claim C8, amended. Where the lexer stands at the first letter of one of the four
  phrases, written in any mix of upper and lower case with one space between the words,
  with no word character before it and none after it, it yields one token for the whole
  phrase, of type \<open>GROUP_BY\<close>, \<open>ORDER_BY\<close>, \<open>NULLS_FIRST\<close> or \<open>NULLS_LAST\<close>, whose value is
  the phrase as written.
\<close>

theorem two_word_keyword_at_token_start:
  assumes "(name, kw) \<in> set two_word_keywords"
    and "map lower_code phrase = map lower_code kw"
    and "\<not> word_at b" and "\<not> word_at (head_opt rest)"
  shows "tokenize_from i b (phrase @ rest)
       = (case tokenize_from (i + length phrase) (Some (last phrase)) rest of
            (toks, err) \<Rightarrow> (Token name (VStr phrase) # toks, err))"
proof -
  from assms(1) consider
      "name = ''GROUP_BY''" "kw = ''GROUP BY''"
    | "name = ''ORDER_BY''" "kw = ''ORDER BY''"
    | "name = ''NULLS_FIRST''" "kw = ''NULLS FIRST''"
    | "name = ''NULLS_LAST''" "kw = ''NULLS LAST''"
    by (auto simp: two_word_keywords_def)
  then show ?thesis
  proof cases
    case 1
    show ?thesis
      unfolding 1
      by (rule keyword_at [OF two_word_entries(1) before_GROUP_BY _ _ _ _ _ _
            assms(2) [unfolded 1] assms(3,4)])
         (simp_all add: two_word_letters)
  next
    case 2
    show ?thesis
      unfolding 2
      by (rule keyword_at [OF two_word_entries(2) before_ORDER_BY _ _ _ _ _ _
            assms(2) [unfolded 2] assms(3,4)])
         (simp_all add: two_word_letters)
  next
    case 3
    show ?thesis
      unfolding 3
      by (rule keyword_at [OF two_word_entries(3) before_NULLS_FIRST _ _ _ _ _ _
            assms(2) [unfolded 3] assms(3,4)])
         (simp_all add: two_word_letters)
  next
    case 4
    show ?thesis
      unfolding 4
      by (rule keyword_at [OF two_word_entries(4) before_NULLS_LAST _ _ _ _ _ _
            assms(2) [unfolded 4] assms(3,4)])
         (simp_all add: two_word_letters)
  qed
qed

theorem two_word_keyword_at_token_start_witness:
  "(''GROUP_BY'', ''GROUP BY'') \<in> set two_word_keywords
   \<and> map lower_code ''group By'' = map lower_code ''GROUP BY''
   \<and> \<not> word_at (Some (CHR '' '')) \<and> \<not> word_at (head_opt '' c'')
   \<and> tokenize_from 15 (Some (CHR '' '')) ''group By c''
       = ([Token ''GROUP_BY'' (VStr ''group By''), Token ''ID'' (VStr ''c'')], None)"
proof -
  have h1: "(''GROUP_BY'', ''GROUP BY'') \<in> set two_word_keywords"
    and h2: "map lower_code ''group By'' = map lower_code ''GROUP BY''"
    and h3: "\<not> word_at (Some (CHR '' ''))" and h4: "\<not> word_at (head_opt '' c'')"
    by code_simp+
  have r: "tokenize_from (15 + length ''group By'') (Some (last ''group By'')) '' c''
             = ([Token ''ID'' (VStr ''c'')], None)"
    by code_simp
  from two_word_keyword_at_token_start [OF h1 h2 h3 h4, of 15]
  have "tokenize_from 15 (Some (CHR '' '')) ''group By c''
       = ([Token ''GROUP_BY'' (VStr ''group By''), Token ''ID'' (VStr ''c'')], None)"
    unfolding r by (simp only: append.simps prod.case)
  with h1 h2 h3 h4 show ?thesis by blast
qed

subsection \<open>The checks on the operands of clauses\<close>

text \<open>
  Claim C5, as stated, says that a WHERE or HAVING clause with an operation attaches, and
  that one with a bare identifier fails with the message about the boolean operation.
  The rule checks the order of the clauses first: in \<open>SELECT c WHERE c = 1\<close> and in
  \<open>SELECT c WHERE c\<close> there is no FROM, and both fail with \<open>WHERE requires FROM\<close>.
\<close>

theorem boolean_operand_counterexample:
  "parse_sql spec_renderer ''SELECT c WHERE c = 1'' = Inl (ParsingException ''WHERE requires FROM'')
   \<and> parse_sql spec_renderer ''SELECT c WHERE c'' = Inl (ParsingException ''WHERE requires FROM'')
   \<and> \<not> sublist ''must contain an operation that evaluates to a boolean'' ''WHERE requires FROM''"
  by code_simp

text \<open>
  Claim C5, amended. When the order check of the clause passes, a WHERE or HAVING
  clause whose expression is not an operation node, such as a bare identifier or a bare
  constant, fails with a message that names the clause, says \<open>must contain an operation
  that evaluates to a boolean\<close> and ends with the rendering of the expression; and one whose
  expression is an operation node, such as a binary or a unary operation, attaches: the
  Select holds the expression in that clause. When the order check fails, its error is
  raised instead, whatever the expression is. This is the step the parser takes when the
  expression of the clause is complete: \<open>SELECT c FROM t WHERE c\<close> fails with the message
  about the boolean operation, \<open>SELECT c WHERE c\<close> and \<open>SELECT c FROM t HAVING c = 1\<close> with
  the error of the order check.
\<close>

theorem boolean_operand_check:
  "(ensure_select_keyword_order sel WHERE_c = Inr () \<longrightarrow>
      (\<not> is_Operation e \<longrightarrow>
         select_WHERE R sel e
           = Inl (ParsingException
                    (''WHERE must contain an operation that evaluates to a boolean, got: ''
                     @ node_str R e)))
    \<and> (is_Operation e \<longrightarrow> select_WHERE R sel e = Inr (sel\<lparr>where_clause := Some e\<rparr>))
    \<and> select_WHERE R sel (Identifier v a p)
        = Inl (ParsingException
                 (''WHERE must contain an operation that evaluates to a boolean, got: ''
                  @ node_str R (Identifier v a p)))
    \<and> select_WHERE R sel (Constant k a p)
        = Inl (ParsingException
                 (''WHERE must contain an operation that evaluates to a boolean, got: ''
                  @ node_str R (Constant k a p)))
    \<and> select_WHERE R sel (BinaryOperation oper l r a p)
        = Inr (sel\<lparr>where_clause := Some (BinaryOperation oper l r a p)\<rparr>)
    \<and> select_WHERE R sel (UnaryOperation oper x a p)
        = Inr (sel\<lparr>where_clause := Some (UnaryOperation oper x a p)\<rparr>))
   \<and> (ensure_select_keyword_order sel WHERE_c = Inl err \<longrightarrow> select_WHERE R sel e = Inl err)
   \<and> (ensure_select_keyword_order sel HAVING_c = Inr () \<longrightarrow>
      (\<not> is_Operation e \<longrightarrow>
         select_HAVING R sel e
           = Inl (ParsingException
                    (''HAVING must contain an operation that evaluates to a boolean, got: ''
                     @ node_str R e)))
    \<and> (is_Operation e \<longrightarrow> select_HAVING R sel e = Inr (sel\<lparr>having := Some e\<rparr>))
    \<and> select_HAVING R sel (Identifier v a p)
        = Inl (ParsingException
                 (''HAVING must contain an operation that evaluates to a boolean, got: ''
                  @ node_str R (Identifier v a p)))
    \<and> select_HAVING R sel (Constant k a p)
        = Inl (ParsingException
                 (''HAVING must contain an operation that evaluates to a boolean, got: ''
                  @ node_str R (Constant k a p)))
    \<and> select_HAVING R sel (BinaryOperation oper l r a p)
        = Inr (sel\<lparr>having := Some (BinaryOperation oper l r a p)\<rparr>)
    \<and> select_HAVING R sel (UnaryOperation oper x a p)
        = Inr (sel\<lparr>having := Some (UnaryOperation oper x a p)\<rparr>))
   \<and> (ensure_select_keyword_order sel HAVING_c = Inl err \<longrightarrow> select_HAVING R sel e = Inl err)
   \<and> (one_of la after_select \<longrightarrow>
        lr_action R [N_expr e, Term (Token ''WHERE'' w), N_select sel] la
          = lift_select (select_WHERE R sel e) []
      \<and> lr_action R [N_expr e, Term (Token ''HAVING'' w), N_select sel] la
          = lift_select (select_HAVING R sel e) [])
   \<and> parse_sql R ''SELECT c FROM t WHERE c''
       = Inl (ParsingException
                (''WHERE must contain an operation that evaluates to a boolean, got: ''
                 @ node_str R (Identifier ''c'' None False)))
   \<and> parse_sql R ''SELECT c WHERE c'' = Inl (ParsingException ''WHERE requires FROM'')
   \<and> parse_sql R ''SELECT c FROM t HAVING c = 1''
       = Inl (ParsingException ''HAVING requires GROUP BY'')"
proof -
  have act: "lr_action R [N_expr e, Term (Token ''WHERE'' w), N_select sel] la
          = lift_select (select_WHERE R sel e) []
      \<and> lr_action R [N_expr e, Term (Token ''HAVING'' w), N_select sel] la
          = lift_select (select_HAVING R sel e) []" if "one_of la after_select"
  proof -
    from that have "\<not> one_of la binary_operators"
      by (auto simp: one_of_def after_select_def binary_operators_def)
    with that show ?thesis
      by (simp add: lr_action_def lr_expr_def lr_condition_def binary_operators_def)
  qed
  have ex: "parse_sql R ''SELECT c FROM t WHERE c''
       = Inl (ParsingException
                (''WHERE must contain an operation that evaluates to a boolean, got: ''
                 @ node_str R (Identifier ''c'' None False)))"
    by code_simp
  have ex2: "parse_sql R ''SELECT c WHERE c'' = Inl (ParsingException ''WHERE requires FROM'')"
    by code_simp
  have ex3: "parse_sql R ''SELECT c FROM t HAVING c = 1''
       = Inl (ParsingException ''HAVING requires GROUP BY'')"
    by code_simp
  from act ex ex2 ex3 show ?thesis
    by (simp add: select_WHERE_def select_HAVING_def)
qed

theorem boolean_operand_check_witness:
  "ensure_select_keyword_order
      ((Select [Identifier ''c'' None False] False)
         \<lparr>from_table := Some (Identifier ''t'' None False)\<rparr>) WHERE_c = Inr ()
   \<and> \<not> is_Operation (Identifier ''c'' None False)
   \<and> select_WHERE spec_renderer
        ((Select [Identifier ''c'' None False] False)
           \<lparr>from_table := Some (Identifier ''t'' None False)\<rparr>) (Identifier ''c'' None False)
       = Inl (ParsingException
                ''WHERE must contain an operation that evaluates to a boolean, got: c'')
   \<and> ensure_select_keyword_order
        ((Select [Identifier ''c'' None False] False)
           \<lparr>from_table := Some (Identifier ''t'' None False),
             group_by := Some [Identifier ''c'' None False]\<rparr>) HAVING_c = Inr ()
   \<and> is_Operation (UnaryOperation ''NOT'' (Identifier ''c'' None False) None False)
   \<and> select_HAVING spec_renderer
        ((Select [Identifier ''c'' None False] False)
           \<lparr>from_table := Some (Identifier ''t'' None False),
             group_by := Some [Identifier ''c'' None False]\<rparr>)
        (UnaryOperation ''NOT'' (Identifier ''c'' None False) None False)
       = Inr ((Select [Identifier ''c'' None False] False)
           \<lparr>from_table := Some (Identifier ''t'' None False),
             group_by := Some [Identifier ''c'' None False],
             having := Some (UnaryOperation ''NOT'' (Identifier ''c'' None False) None False)\<rparr>)
   \<and> ensure_select_keyword_order (Select [Identifier ''c'' None False] False) WHERE_c
       = Inl (ParsingException ''WHERE requires FROM'')
   \<and> select_WHERE spec_renderer (Select [Identifier ''c'' None False] False)
        (BinaryOperation ''='' (Identifier ''c'' None False) (Constant (VInt 1) None False)
           None False)
       = Inl (ParsingException ''WHERE requires FROM'')
   \<and> ensure_select_keyword_order
        ((Select [Identifier ''c'' None False] False)
           \<lparr>from_table := Some (Identifier ''t'' None False)\<rparr>) HAVING_c
       = Inl (ParsingException ''HAVING requires GROUP BY'')
   \<and> select_HAVING spec_renderer
        ((Select [Identifier ''c'' None False] False)
           \<lparr>from_table := Some (Identifier ''t'' None False)\<rparr>) (Identifier ''c'' None False)
       = Inl (ParsingException ''HAVING requires GROUP BY'')
   \<and> one_of None after_select"
proof -
  have h1: "ensure_select_keyword_order
      ((Select [Identifier ''c'' None False] False)
         \<lparr>from_table := Some (Identifier ''t'' None False)\<rparr>) WHERE_c = Inr ()"
    by code_simp
  have h2: "ensure_select_keyword_order
        ((Select [Identifier ''c'' None False] False)
           \<lparr>from_table := Some (Identifier ''t'' None False),
             group_by := Some [Identifier ''c'' None False]\<rparr>) HAVING_c = Inr ()"
    by code_simp
  have h3: "one_of None after_select" by code_simp
  have h4: "ensure_select_keyword_order (Select [Identifier ''c'' None False] False) WHERE_c
       = Inl (ParsingException ''WHERE requires FROM'')"
    by code_simp
  have h5: "ensure_select_keyword_order
        ((Select [Identifier ''c'' None False] False)
           \<lparr>from_table := Some (Identifier ''t'' None False)\<rparr>) HAVING_c
       = Inl (ParsingException ''HAVING requires GROUP BY'')"
    by code_simp
  have o1: "\<not> is_Operation (Identifier ''c'' None False)"
    and o2: "is_Operation (UnaryOperation ''NOT'' (Identifier ''c'' None False) None False)"
    by simp_all
  have n: "node_str spec_renderer (Identifier ''c'' None False) = ''c''" by code_simp
  from boolean_operand_check
    [where sel = "(Select [Identifier ''c'' None False] False)
           \<lparr>from_table := Some (Identifier ''t'' None False)\<rparr>"
       and R = spec_renderer and e = "Identifier ''c'' None False"]
    h1 o1 n
  have w: "select_WHERE spec_renderer
        ((Select [Identifier ''c'' None False] False)
           \<lparr>from_table := Some (Identifier ''t'' None False)\<rparr>) (Identifier ''c'' None False)
       = Inl (ParsingException
                ''WHERE must contain an operation that evaluates to a boolean, got: c'')"
    by simp
  from boolean_operand_check
    [where sel = "(Select [Identifier ''c'' None False] False)
           \<lparr>from_table := Some (Identifier ''t'' None False),
             group_by := Some [Identifier ''c'' None False]\<rparr>"
       and R = spec_renderer
       and e = "UnaryOperation ''NOT'' (Identifier ''c'' None False) None False"]
    h2 o2
  have hv: "select_HAVING spec_renderer
        ((Select [Identifier ''c'' None False] False)
           \<lparr>from_table := Some (Identifier ''t'' None False),
             group_by := Some [Identifier ''c'' None False]\<rparr>)
        (UnaryOperation ''NOT'' (Identifier ''c'' None False) None False)
       = Inr ((Select [Identifier ''c'' None False] False)
           \<lparr>from_table := Some (Identifier ''t'' None False),
             group_by := Some [Identifier ''c'' None False],
             having := Some (UnaryOperation ''NOT'' (Identifier ''c'' None False) None False)\<rparr>)"
    by simp
  from boolean_operand_check
    [where sel = "Select [Identifier ''c'' None False] False" and R = spec_renderer
       and err = "ParsingException ''WHERE requires FROM''"
       and e = "BinaryOperation ''='' (Identifier ''c'' None False)
                  (Constant (VInt 1) None False) None False"]
    h4
  have f1: "select_WHERE spec_renderer (Select [Identifier ''c'' None False] False)
        (BinaryOperation ''='' (Identifier ''c'' None False) (Constant (VInt 1) None False)
           None False)
       = Inl (ParsingException ''WHERE requires FROM'')"
    by blast
  from boolean_operand_check
    [where sel = "(Select [Identifier ''c'' None False] False)
           \<lparr>from_table := Some (Identifier ''t'' None False)\<rparr>" and R = spec_renderer
       and err = "ParsingException ''HAVING requires GROUP BY''"
       and e = "Identifier ''c'' None False"]
    h5
  have f2: "select_HAVING spec_renderer
        ((Select [Identifier ''c'' None False] False)
           \<lparr>from_table := Some (Identifier ''t'' None False)\<rparr>) (Identifier ''c'' None False)
       = Inl (ParsingException ''HAVING requires GROUP BY'')"
    by blast
  from h1 h2 h3 h4 h5 o1 o2 w hv f1 f2 show ?thesis by blast
qed

text \<open>
  Claim C6, as stated, says that a LIMIT or OFFSET clause with an integer constant
  attaches, and that one with another constant fails with a message that names the
  offending value. The rule checks the order of the clauses first: the second LIMIT of
  \<open>SELECT c FROM t LIMIT 1 LIMIT 2\<close> has an integer and does not attach, and
  \<open>SELECT c FROM t OFFSET 1 LIMIT 2.5\<close> fails with a message that does not hold \<open>2.5\<close>.
\<close>

theorem integer_limit_offset_counterexample:
  "parse_sql spec_renderer ''SELECT c FROM t LIMIT 1 LIMIT 2''
     = Inl (ParsingException ''Duplicate LIMIT clause. Only one LIMIT allowed per SELECT.'')
   \<and> parse_sql spec_renderer ''SELECT c FROM t OFFSET 1 LIMIT 2.5''
     = Inl (ParsingException ''LIMIT must go after OFFSET'')
   \<and> \<not> sublist ''2.5'' ''LIMIT must go after OFFSET''"
  by code_simp

text \<open>
  Claim C6, amended. When the order check of the clause passes, a LIMIT or OFFSET clause
  whose constant is an integer attaches, and the Select holds that constant as its
  \<open>limit\<close> or \<open>offset\<close>; one whose constant is a float or a string fails with
  \<open>LIMIT must be an integer value, got:\<close> (or \<open>OFFSET ...\<close>) and the value. When the order
  check fails, its error is raised instead, whatever the constant is. This is the step
  the parser takes when the constant of the clause is read. \<open>SELECT c FROM t LIMIT "x"\<close>
  and \<open>SELECT c FROM t OFFSET 3.0\<close> fail with the message about the integer value,
  \<open>SELECT c FROM t LIMIT 5 OFFSET 3\<close> holds both constants, and
  \<open>SELECT c FROM t OFFSET 1 LIMIT 2.5\<close> and \<open>SELECT c FROM t OFFSET 1 OFFSET 2.5\<close> fail with
  the error of the order check.
\<close>

theorem integer_limit_offset:
  "(ensure_select_keyword_order sel LIMIT_c = Inr () \<longrightarrow>
      select_LIMIT R sel (Constant (VInt n) a p)
        = Inr (sel\<lparr>limit := Some (Constant (VInt n) a p)\<rparr>)
    \<and> select_LIMIT R sel (Constant (VFloat f) a p)
        = Inl (ParsingException (''LIMIT must be an integer value, got: '' @ float_str R f))
    \<and> select_LIMIT R sel (Constant (VStr s) a p)
        = Inl (ParsingException (''LIMIT must be an integer value, got: '' @ s)))
   \<and> (ensure_select_keyword_order sel LIMIT_c = Inl err \<longrightarrow> select_LIMIT R sel c = Inl err)
   \<and> (ensure_select_keyword_order sel OFFSET_c = Inr () \<longrightarrow>
      select_OFFSET R sel (Constant (VInt n) a p)
        = Inr (sel\<lparr>offset := Some (Constant (VInt n) a p)\<rparr>)
    \<and> select_OFFSET R sel (Constant (VFloat f) a p)
        = Inl (ParsingException (''OFFSET must be an integer value, got: '' @ float_str R f))
    \<and> select_OFFSET R sel (Constant (VStr s) a p)
        = Inl (ParsingException (''OFFSET must be an integer value, got: '' @ s)))
   \<and> (ensure_select_keyword_order sel OFFSET_c = Inl err \<longrightarrow> select_OFFSET R sel c = Inl err)
   \<and> (one_of la after_select \<longrightarrow>
        lr_action R [N_constant c, Term (Token ''LIMIT'' w), N_select sel] la
          = lift_select (select_LIMIT R sel c) []
      \<and> lr_action R [N_constant c, Term (Token ''OFFSET'' w), N_select sel] la
          = lift_select (select_OFFSET R sel c) [])
   \<and> parse_sql R (''SELECT c FROM t LIMIT '' @ [CHR 0x22] @ ''x'' @ [CHR 0x22])
       = Inl (ParsingException ''LIMIT must be an integer value, got: x'')
   \<and> parse_sql R ''SELECT c FROM t OFFSET 3.0''
       = Inl (ParsingException (''OFFSET must be an integer value, got: '' @ float_str R ''3.0''))
   \<and> parse_sql R ''SELECT c FROM t LIMIT 5 OFFSET 3''
       = Inr ((Select [Identifier ''c'' None False] False)
                \<lparr>from_table := Some (Identifier ''t'' None False),
                  limit := Some (Constant (VInt 5) None False),
                  offset := Some (Constant (VInt 3) None False)\<rparr>)
   \<and> parse_sql R ''SELECT c FROM t OFFSET 1 LIMIT 2.5''
       = Inl (ParsingException ''LIMIT must go after OFFSET'')
   \<and> parse_sql R ''SELECT c FROM t OFFSET 1 OFFSET 2.5''
       = Inl (ParsingException ''Duplicate OFFSET clause. Only one OFFSET allowed per SELECT.'')"
proof -
  have act: "lr_action R [N_constant c, Term (Token ''LIMIT'' w), N_select sel] la
          = lift_select (select_LIMIT R sel c) []
      \<and> lr_action R [N_constant c, Term (Token ''OFFSET'' w), N_select sel] la
          = lift_select (select_OFFSET R sel c) []" if "one_of la after_select"
    using that by (simp add: lr_action_def lr_constant_def)
  have e1: "parse_sql R (''SELECT c FROM t LIMIT '' @ [CHR 0x22] @ ''x'' @ [CHR 0x22])
       = Inl (ParsingException ''LIMIT must be an integer value, got: x'')"
    by code_simp
  have e2: "parse_sql R ''SELECT c FROM t OFFSET 3.0''
       = Inl (ParsingException (''OFFSET must be an integer value, got: '' @ float_str R ''3.0''))"
    by code_simp
  have e3: "parse_sql R ''SELECT c FROM t LIMIT 5 OFFSET 3''
       = Inr ((Select [Identifier ''c'' None False] False)
                \<lparr>from_table := Some (Identifier ''t'' None False),
                  limit := Some (Constant (VInt 5) None False),
                  offset := Some (Constant (VInt 3) None False)\<rparr>)"
    by code_simp
  have e4: "parse_sql R ''SELECT c FROM t OFFSET 1 LIMIT 2.5''
       = Inl (ParsingException ''LIMIT must go after OFFSET'')"
    by code_simp
  have e5: "parse_sql R ''SELECT c FROM t OFFSET 1 OFFSET 2.5''
       = Inl (ParsingException ''Duplicate OFFSET clause. Only one OFFSET allowed per SELECT.'')"
    by code_simp
  from act e1 e2 e3 e4 e5 show ?thesis
    by (simp add: select_LIMIT_def select_OFFSET_def)
qed

theorem integer_limit_offset_witness:
  "ensure_select_keyword_order (Select [Identifier ''c'' None False] False) LIMIT_c = Inr ()
   \<and> select_LIMIT spec_renderer (Select [Identifier ''c'' None False] False)
        (Constant (VInt 5) None False)
       = Inr ((Select [Identifier ''c'' None False] False)
                \<lparr>limit := Some (Constant (VInt 5) None False)\<rparr>)
   \<and> ensure_select_keyword_order (Select [Identifier ''c'' None False] False) OFFSET_c = Inr ()
   \<and> select_OFFSET spec_renderer (Select [Identifier ''c'' None False] False)
        (Constant (VFloat ''3.0'') None False)
       = Inl (ParsingException ''OFFSET must be an integer value, got: 3.0'')
   \<and> ensure_select_keyword_order
        ((Select [Identifier ''c'' None False] False)
           \<lparr>offset := Some (Constant (VInt 1) None False)\<rparr>) LIMIT_c
       = Inl (ParsingException ''LIMIT must go after OFFSET'')
   \<and> select_LIMIT spec_renderer
        ((Select [Identifier ''c'' None False] False)
           \<lparr>offset := Some (Constant (VInt 1) None False)\<rparr>) (Constant (VInt 2) None False)
       = Inl (ParsingException ''LIMIT must go after OFFSET'')
   \<and> ensure_select_keyword_order
        ((Select [Identifier ''c'' None False] False)
           \<lparr>offset := Some (Constant (VInt 1) None False)\<rparr>) OFFSET_c
       = Inl (ParsingException ''Duplicate OFFSET clause. Only one OFFSET allowed per SELECT.'')
   \<and> select_OFFSET spec_renderer
        ((Select [Identifier ''c'' None False] False)
           \<lparr>offset := Some (Constant (VInt 1) None False)\<rparr>)
        (Constant (VFloat ''2.5'') None False)
       = Inl (ParsingException ''Duplicate OFFSET clause. Only one OFFSET allowed per SELECT.'')
   \<and> one_of None after_select"
proof -
  have h1: "ensure_select_keyword_order (Select [Identifier ''c'' None False] False) LIMIT_c
              = Inr ()"
    and h2: "ensure_select_keyword_order (Select [Identifier ''c'' None False] False) OFFSET_c
              = Inr ()"
    and h3: "one_of None after_select"
    and f: "float_str spec_renderer ''3.0'' = ''3.0''"
    by code_simp+
  have h4: "ensure_select_keyword_order
        ((Select [Identifier ''c'' None False] False)
           \<lparr>offset := Some (Constant (VInt 1) None False)\<rparr>) LIMIT_c
       = Inl (ParsingException ''LIMIT must go after OFFSET'')"
    by code_simp
  have h5: "ensure_select_keyword_order
        ((Select [Identifier ''c'' None False] False)
           \<lparr>offset := Some (Constant (VInt 1) None False)\<rparr>) OFFSET_c
       = Inl (ParsingException ''Duplicate OFFSET clause. Only one OFFSET allowed per SELECT.'')"
    by code_simp
  note t = integer_limit_offset
    [where sel = "Select [Identifier ''c'' None False] False" and R = spec_renderer
       and n = 5 and a = None and p = False and f = "''3.0''"]
  from t h1 have l: "select_LIMIT spec_renderer (Select [Identifier ''c'' None False] False)
        (Constant (VInt 5) None False)
       = Inr ((Select [Identifier ''c'' None False] False)
                \<lparr>limit := Some (Constant (VInt 5) None False)\<rparr>)"
    by simp
  from t h2 f have o: "select_OFFSET spec_renderer (Select [Identifier ''c'' None False] False)
        (Constant (VFloat ''3.0'') None False)
       = Inl (ParsingException ''OFFSET must be an integer value, got: 3.0'')"
    by simp
  from integer_limit_offset
    [where sel = "(Select [Identifier ''c'' None False] False)
           \<lparr>offset := Some (Constant (VInt 1) None False)\<rparr>" and R = spec_renderer
       and err = "ParsingException ''LIMIT must go after OFFSET''"
       and c = "Constant (VInt 2) None False"]
    h4
  have f1: "select_LIMIT spec_renderer
        ((Select [Identifier ''c'' None False] False)
           \<lparr>offset := Some (Constant (VInt 1) None False)\<rparr>) (Constant (VInt 2) None False)
       = Inl (ParsingException ''LIMIT must go after OFFSET'')"
    by blast
  from integer_limit_offset
    [where sel = "(Select [Identifier ''c'' None False] False)
           \<lparr>offset := Some (Constant (VInt 1) None False)\<rparr>" and R = spec_renderer
       and err = "ParsingException
                    ''Duplicate OFFSET clause. Only one OFFSET allowed per SELECT.''"
       and c = "Constant (VFloat ''2.5'') None False"]
    h5
  have f2: "select_OFFSET spec_renderer
        ((Select [Identifier ''c'' None False] False)
           \<lparr>offset := Some (Constant (VInt 1) None False)\<rparr>)
        (Constant (VFloat ''2.5'') None False)
       = Inl (ParsingException ''Duplicate OFFSET clause. Only one OFFSET allowed per SELECT.'')"
    by blast
  from h1 h2 h3 h4 h5 l o f1 f2 show ?thesis by blast
qed

subsection \<open>The order of the clauses\<close>

lemma peek_simps [simp]: "peek [] = None" "peek (t # ts) = Some t"
  by (simp_all add: peek_def)

lemma parse_loop_feed:
  "parse_loop R st (xs @ ys) eof
     = (case feed R st xs of
          Shifted st' \<Rightarrow> parse_loop R st' ys eof
        | Accepted sel \<Rightarrow> Inr sel
        | Failed e \<Rightarrow> Inl e)"
  by (induction xs arbitrary: st) (auto split: outcome.splits)

lemma lookahead_after_select:
  assumes "one_of la after_select"
  shows "one_of la after_expr"
    "one_of la (after_expr @ after_ordering_term @ after_table @ [''ASC'', ''DESC''])"
    "one_of la (after_ordering_term @ after_table @ after_result_column @ [''ASC'', ''DESC''])"
    "one_of la after_ordering_term" "one_of la after_table" "one_of la after_result_column"
    "one_of la (''RPAREN'' # after_select)" "one_of la ([''COMMA'', ''RPAREN''] @ after_select)"
    "one_of la (''COMMA'' # after_select)"
    "\<not> one_of la [''LPAREN'']" "\<not> one_of la [''ID'', ''STAR'']"
    "\<not> one_of la [''INTEGER'', ''FLOAT'', ''STRING'']" "\<not> one_of la (''DISTINCT'' # expr_starts)"
    "\<not> one_of la expr_starts" "\<not> one_of la [''DESC'', ''ASC'']"
    "\<not> one_of la binary_operators" "\<not> one_of la [''COMMA'']"
    "\<not> one_of la (''RPAREN'' # binary_operators)" "\<not> one_of la [''RPAREN'']"
    "\<not> one_of la [''AS'']" "\<not> one_of la [''NULLS_FIRST'', ''NULLS_LAST'']"
    "\<not> one_of la (''COMMA'' # join_tokens)" "\<not> one_of la [''ON'']" "\<not> one_of la [''SELECT'']"
  using assms
  by (auto simp: one_of_def after_select_def after_expr_def after_ordering_term_def
        after_table_def after_result_column_def expr_starts_def binary_operators_def
        join_tokens_def)

lemma lift_select_case:
  "lift_select r rest = (case r of Inl e \<Rightarrow> Raise e | Inr sel \<Rightarrow> Reduce (N_select sel # rest))"
  by (cases r) auto

lemma in_token_lists:
  "x \<in> set join_tokens
     \<longleftrightarrow> x = ''LEFT_JOIN'' \<or> x = ''RIGHT_JOIN'' \<or> x = ''INNER_JOIN'' \<or> x = ''FULL_JOIN''"
  "x \<in> set binary_operators
     \<longleftrightarrow> x = ''PLUS'' \<or> x = ''MINUS'' \<or> x = ''STAR'' \<or> x = ''DIVIDE'' \<or> x = ''MODULO''
        \<or> x = ''EQUALS'' \<or> x = ''NEQUALS'' \<or> x = ''GEQ'' \<or> x = ''GREATER'' \<or> x = ''LEQ''
        \<or> x = ''LESS'' \<or> x = ''AND'' \<or> x = ''OR'' \<or> x = ''NOT'' \<or> x = ''ISNOT''
        \<or> x = ''IS'' \<or> x = ''LIKE'' \<or> x = ''IN''"
  by (auto simp: join_tokens_def binary_operators_def)

lemmas lr_defs = lr_action_def lr_token_def lr_constant_def lr_identifier_def lr_expr_def
  lr_binary_def lr_unary_def lr_first_of_list_def lr_in_paren_def lr_after_comma_def
  lr_condition_def lr_join_condition_def lr_enumeration_def lr_expr_list_def
  lr_result_column_def lr_result_columns_def lr_ordering_term_def lr_ordering_terms_def
  lr_table_or_subquery_def lr_from_table_def identifier_only_def lift_select_case
  in_token_lists Let_def

lemma component_tokens:
  "component FROM_c = [Token ''FROM'' (VStr ''FROM''), Token ''ID'' (VStr ''t'')]"
  "component WHERE_c = [Token ''WHERE'' (VStr ''WHERE''), Token ''ID'' (VStr ''column''),
                        Token ''EQUALS'' (VStr ''=''), Token ''INTEGER'' (VInt 1)]"
  "component GROUP_BY_c = [Token ''GROUP_BY'' (VStr ''GROUP BY''), Token ''ID'' (VStr ''column'')]"
  "component HAVING_c = [Token ''HAVING'' (VStr ''HAVING''), Token ''ID'' (VStr ''column''),
                         Token ''NEQUALS'' (VStr ''!=''), Token ''INTEGER'' (VInt 2)]"
  "component ORDER_BY_c = [Token ''ORDER_BY'' (VStr ''ORDER BY''), Token ''ID'' (VStr ''column''),
                           Token ''ASC'' (VStr ''ASC'')]"
  "component LIMIT_c = [Token ''LIMIT'' (VStr ''LIMIT''), Token ''INTEGER'' (VInt 1)]"
  "component OFFSET_c = [Token ''OFFSET'' (VStr ''OFFSET''), Token ''INTEGER'' (VInt 1)]"
  by code_simp+

lemma feed_components:
  "feed R [N_select sel] (component FROM_c) = Shifted (pending FROM_c sel)"
  "feed R [N_select sel] (component WHERE_c) = Shifted (pending WHERE_c sel)"
  "feed R [N_select sel] (component GROUP_BY_c) = Shifted (pending GROUP_BY_c sel)"
  "feed R [N_select sel] (component HAVING_c) = Shifted (pending HAVING_c sel)"
  "feed R [N_select sel] (component ORDER_BY_c) = Shifted (pending ORDER_BY_c sel)"
  "feed R [N_select sel] (component LIMIT_c) = Shifted (pending LIMIT_c sel)"
  "feed R [N_select sel] (component OFFSET_c) = Shifted (pending OFFSET_c sel)"
  by code_simp+

lemma feed_component: "feed R [N_select sel] (component c) = Shifted (pending c sel)"
  by (cases c) (simp_all only: feed_components)

lemma feed_select:
  "feed R [] (fst (tokenize ''SELECT column''))
     = Shifted [Term (Token ''ID'' (VStr ''column'')), Term (Token ''SELECT'' (VStr ''SELECT''))]"
  by code_simp

lemma close_component:
  assumes "one_of la after_select"
  shows "reduce_all R (pending c sel) la
       = (case attach R c sel of Inl e \<Rightarrow> Failed e
          | Inr sel' \<Rightarrow> reduce_all R [N_select sel'] la)"
  by (cases c)
     (simp_all add: reduce_all.simps [of _ "_ # _ # _"] lr_defs lookahead_after_select [OF assms]
        assms column_def split: sum.split)

lemma close_select:
  assumes "one_of la after_select"
  shows "reduce_all R [Term (Token ''ID'' (VStr ''column'')),
                       Term (Token ''SELECT'' (VStr ''SELECT''))] la
       = reduce_all R [N_select (Select [column] False)] la"
  by (simp add: reduce_all.simps [of _ "_ # _ # _"] lr_defs lookahead_after_select [OF assms]
        assms column_def)

lemma peek_components: "one_of (peek (concat (map component cs))) after_select"
proof (cases cs)
  case Nil
  then show ?thesis by (simp add: one_of_def after_select_def)
next
  case (Cons c cs')
  have "one_of (peek (component c @ r)) after_select" for r
    by (cases c) (simp_all add: component_tokens one_of_def after_select_def)
  with Cons show ?thesis by simp
qed

lemma parse_pending:
  assumes "one_of (peek toks) after_select"
  shows "parse_loop R (pending c sel) toks None
       = (case attach R c sel of Inl e \<Rightarrow> Inl e
          | Inr sel' \<Rightarrow> parse_loop R [N_select sel'] toks None)"
  using close_component [OF assms, of R c sel]
  by (cases toks) (simp_all split: sum.split)

lemma reduce_all_select: "reduce_all R [N_select sel] None = Accepted sel"
  by (subst reduce_all.simps) (simp add: lr_action_def one_of_def)

lemma parse_components:
  "parse_loop R [N_select sel] (concat (map component cs)) None = attach_all R cs sel"
proof (induction cs arbitrary: sel)
  case Nil
  show ?case by (simp add: reduce_all_select)
next
  case (Cons c cs)
  have "parse_loop R [N_select sel] (component c @ concat (map component cs)) None
      = parse_loop R (pending c sel) (concat (map component cs)) None"
    by (simp add: parse_loop_feed feed_component)
  also have "\<dots> = (case attach R c sel of Inl e \<Rightarrow> Inl e
          | Inr sel' \<Rightarrow> parse_loop R [N_select sel'] (concat (map component cs)) None)"
    by (rule parse_pending [OF peek_components])
  finally show ?case using Cons.IH by (simp split: sum.split)
qed

lemma parse_select_order_query:
  "parse R (select_order_query perm) = attach_all R perm (Select [column] False)"
proof -
  have "parse R (select_order_query perm)
      = parse_loop R [Term (Token ''ID'' (VStr ''column'')),
                      Term (Token ''SELECT'' (VStr ''SELECT''))]
          (concat (map component perm)) None"
    by (simp add: parse_def select_order_query_def parse_loop_feed feed_select)
  also have "\<dots> = parse_loop R [N_select (Select [column] False)]
                      (concat (map component perm)) None"
  proof -
    have "parse_loop R [Term (Token ''ID'' (VStr ''column'')),
                        Term (Token ''SELECT'' (VStr ''SELECT''))] toks None
        = parse_loop R [N_select (Select [column] False)] toks None"
      if "one_of (peek toks) after_select" for toks
      using close_select [OF that, of R] by (cases toks) simp_all
    from this [OF peek_components] show ?thesis .
  qed
  finally show ?thesis by (simp add: parse_components)
qed

lemmas lex_defs = master_re_def rules_def match_keyword_def match_literal_def match_ID_def
  match_FLOAT_def match_INTEGER_def match_STRING_def match_quoted_def match_segment_def
  boundary_def is_word_def is_latin1_alnum_def is_letter_def is_upper_def is_lower_def
  is_digit_def is_id_char_def is_id_alpha_def code_def ci_eq_def lower_code_def
  token_value_def int_of_digits_def digits_value_def digit_value_def ignore_def Let_def

lemma lex_component_last:
  "\<not> word_at b \<Longrightarrow> tokenize_from i b (component_text c) = (component c, None)"
  by (cases c) (simp_all add: component_tokens lex_defs)

lemma lex_component_more:
  "\<not> word_at b \<Longrightarrow>
   tokenize_from i b (component_text c @ CHR 0x0A # rest)
     = (case tokenize_from (i + length (component_text c) + 1) (Some (CHR 0x0A)) rest of
          (toks, err) \<Rightarrow> (component c @ toks, err))"
  by (cases c) (simp_all add: component_tokens lex_defs eval_nat_numeral split: prod.split)

lemma lex_components:
  "\<not> word_at b \<Longrightarrow>
   tokenize_from i b (join_with [CHR 0x0A] (map component_text cs))
     = (concat (map component cs), None)"
proof (induction cs arbitrary: i b)
  case Nil
  then show ?case by simp
next
  case (Cons c cs)
  show ?case
  proof (cases cs)
    case Nil
    with Cons.prems show ?thesis by (simp add: lex_component_last)
  next
    case (Cons d ds)
    have nl: "\<not> word_at (Some (CHR 0x0A))" by code_simp
    from Cons.IH [OF nl] Cons
    have "tokenize_from (i + length (component_text c) + 1) (Some (CHR 0x0A))
            (join_with [CHR 0x0A] (map component_text (d # ds)))
        = (concat (map component (d # ds)), None)"
      by simp
    with Cons Cons.prems show ?thesis
      by (simp add: lex_component_more)
  qed
qed

lemma lex_select_order_sql:
  "tokenize (select_order_sql perm) = select_order_query perm"
proof -
  have sp: "\<not> word_at (Some (CHR '' ''))" by code_simp
  have "tokenize (''SELECT column '' @ rest)
      = (case tokenize_from 14 (Some (CHR '' '')) rest of
           (toks, err) \<Rightarrow> (fst (tokenize ''SELECT column'') @ toks, err))" for rest
  proof -
    have "fst (tokenize ''SELECT column'')
        = [Token ''SELECT'' (VStr ''SELECT''), Token ''ID'' (VStr ''column'')]"
      by code_simp
    then show ?thesis
      by (simp add: tokenize_def lex_defs eval_nat_numeral split: prod.split)
  qed
  then show ?thesis
    by (simp add: select_order_sql_def select_order_query_def lex_components [OF sp])
qed

lemma ensure_ok:
  assumes "ensure_select_keyword_order sel c = Inr ()"
  shows "\<not> op_to_attr sel c" and "op_to_attr sel d \<Longrightarrow> position d < position c"
proof -
  from assms show nc: "\<not> op_to_attr sel c"
    by (auto simp: ensure_select_keyword_order_def split: if_splits)
  from assms nc have "find (op_to_attr sel) (from_index c precedence) = None"
    by (auto simp: ensure_select_keyword_order_def split: if_splits option.splits)
  then have later: "\<forall>x \<in> set (from_index c precedence). \<not> op_to_attr sel x"
    by (simp add: find_None_iff)
  have "d \<in> set (from_index c precedence)" if "position c \<le> position d"
    using that by (cases c; cases d) (simp_all add: from_index_def precedence_def)
  with later show "position d < position c" if "op_to_attr sel d"
    using that by (meson not_le)
qed

lemma message_parts:
  "sublist ''must go after'' (a @ '' must go after '' @ b)"
  "sublist '' requires '' (a @ '' requires '' @ b)"
proof -
  have "a @ '' must go after '' @ b = (a @ '' '') @ ''must go after'' @ ('' '' @ b)" by simp
  then show "sublist ''must go after'' (a @ '' must go after '' @ b)"
    unfolding sublist_def by blast
  show "sublist '' requires '' (a @ '' requires '' @ b)"
    unfolding sublist_def by blast
qed

lemma ensure_error:
  assumes "ensure_select_keyword_order sel c = Inl e" and "\<not> op_to_attr sel c"
  shows "order_message e"
  using assms message_parts
  by (auto simp: ensure_select_keyword_order_def order_message_def
        split: if_splits option.splits)

lemma attach_ok:
  assumes "ensure_select_keyword_order sel c = Inr ()"
  shows "\<exists>sel'. attach R c sel = Inr sel'
           \<and> (\<forall>d. op_to_attr sel' d = (d = c \<or> op_to_attr sel d))"
proof -
  have upd: "op_to_attr (sel\<lparr>from_table := Some n\<rparr>) d = (d = FROM_c \<or> op_to_attr sel d)"
    "op_to_attr (sel\<lparr>where_clause := Some n\<rparr>) d = (d = WHERE_c \<or> op_to_attr sel d)"
    "op_to_attr (sel\<lparr>group_by := Some [n]\<rparr>) d = (d = GROUP_BY_c \<or> op_to_attr sel d)"
    "op_to_attr (sel\<lparr>having := Some n\<rparr>) d = (d = HAVING_c \<or> op_to_attr sel d)"
    "op_to_attr (sel\<lparr>order_by := Some [t]\<rparr>) d = (d = ORDER_BY_c \<or> op_to_attr sel d)"
    "op_to_attr (sel\<lparr>limit := Some n\<rparr>) d = (d = LIMIT_c \<or> op_to_attr sel d)"
    "op_to_attr (sel\<lparr>offset := Some n\<rparr>) d = (d = OFFSET_c \<or> op_to_attr sel d)"
    for n t d
    by (cases d; simp)+
  from assms show ?thesis
    by (cases c)
       (simp_all add: select_FROM_def select_WHERE_def select_GROUP_BY_def select_HAVING_def
          select_ORDER_BY_def select_LIMIT_def select_OFFSET_def column_def upd)
qed

lemma attach_error:
  "ensure_select_keyword_order sel c = Inl e \<Longrightarrow> attach R c sel = Inl e"
  by (cases c)
     (simp_all add: select_FROM_def select_WHERE_def select_GROUP_BY_def select_HAVING_def
        select_ORDER_BY_def select_LIMIT_def select_OFFSET_def)

lemma attach_cases:
  obtains (ok) sel' where "ensure_select_keyword_order sel c = Inr ()"
      "attach R c sel = Inr sel'" "\<And>d. op_to_attr sel' d = (d = c \<or> op_to_attr sel d)"
  | (error) e where "ensure_select_keyword_order sel c = Inl e" "attach R c sel = Inl e"
proof (cases "ensure_select_keyword_order sel c")
  case (Inl e)
  with attach_error [OF Inl] error show ?thesis by blast
next
  case (Inr u)
  then have "ensure_select_keyword_order sel c = Inr ()" by simp
  with attach_ok [OF this] ok show ?thesis by blast
qed

lemma attach_all_error:
  "attach_all R cs sel = Inl e \<Longrightarrow> distinct cs \<Longrightarrow> \<forall>c \<in> set cs. \<not> op_to_attr sel c
     \<Longrightarrow> order_message e"
proof (induction cs arbitrary: sel)
  case Nil
  then show ?case by simp
next
  case (Cons c cs)
  show ?case
  proof (cases rule: attach_cases [of sel c R])
    case (ok sel')
    from Cons.prems(1) ok(2) have "attach_all R cs sel' = Inl e" by simp
    moreover from Cons.prems(2) have "distinct cs" by simp
    moreover from Cons.prems(2,3) ok(3) have "\<forall>d \<in> set cs. \<not> op_to_attr sel' d" by auto
    ultimately show ?thesis by (rule Cons.IH)
  next
    case (error e')
    with Cons.prems(1) have "e' = e" by simp
    with error(1) Cons.prems(3) show ?thesis by (auto intro: ensure_error)
  qed
qed

lemma attach_all_later:
  "attach_all R cs sel = Inr sel' \<Longrightarrow> d \<in> set cs \<Longrightarrow> op_to_attr sel x
     \<Longrightarrow> position x < position d"
proof (induction cs arbitrary: sel)
  case Nil
  then show ?case by simp
next
  case (Cons c cs)
  show ?case
  proof (cases rule: attach_cases [of sel c R])
    case (ok s1)
    from Cons.prems(1) ok(2) have rest: "attach_all R cs s1 = Inr sel'" by simp
    show ?thesis
    proof (cases "d = c")
      case True
      with ensure_ok(2) [OF ok(1) Cons.prems(3)] show ?thesis by simp
    next
      case False
      with Cons.prems(2) have "d \<in> set cs" by simp
      moreover from ok(3) Cons.prems(3) have "op_to_attr s1 x" by simp
      ultimately show ?thesis using rest Cons.IH by blast
    qed
  next
    case (error e)
    with Cons.prems(1) show ?thesis by simp
  qed
qed

lemma attach_all_sorted:
  "attach_all R cs sel = Inr sel' \<Longrightarrow> sorted_wrt (\<lambda>a b. position a < position b) cs"
proof (induction cs arbitrary: sel)
  case Nil
  then show ?case by simp
next
  case (Cons c cs)
  show ?case
  proof (cases rule: attach_cases [of sel c R])
    case (ok s1)
    from Cons.prems ok(2) have rest: "attach_all R cs s1 = Inr sel'" by simp
    from ok(3) have "op_to_attr s1 c" by simp
    with attach_all_later [OF rest] have "\<forall>d \<in> set cs. position c < position d" by blast
    with Cons.IH [OF rest] show ?thesis by simp
  next
    case (error e)
    with Cons.prems show ?thesis by simp
  qed
qed

lemma sorted_permutation:
  assumes "sorted_wrt (\<lambda>a b. position a < position b) cs" and "set cs = set precedence"
  shows "cs = precedence"
proof -
  have inj: "inj position"
  proof (rule injI)
    fix x y show "position x = position y \<Longrightarrow> x = y" by (cases x; cases y) simp_all
  qed
  from assms(1) have "sorted_wrt (<) (map position cs)" by (simp add: sorted_wrt_map)
  moreover have "sorted_wrt (<) (map position precedence)" by (simp add: precedence_def)
  moreover from assms(2) have "set (map position cs) = set (map position precedence)"
    by simp
  ultimately have "map position cs = map position precedence"
    by (metis strict_sorted_equal)
  with inj show ?thesis by simp
qed

lemma parse_sql_select_order:
  "parse_sql R (select_order_sql perm) = attach_all R perm (Select [column] False)"
  by (simp add: parse_sql_def lex_select_order_sql parse_select_order_query)

text \<open>
  Claim C2. The query is \<open>SELECT column\<close> and the seven components of \<open>test_select_order\<close>,
  each on a line of its own, in the order \<open>perm\<close>, where \<open>perm\<close> holds each of the seven
  clauses once. In the canonical order it parses, to the Select with the seven clauses.
  In every other order the parse raises an error whose message contains \<open>must go after\<close>
  or \<open>requires\<close>. \<open>SELECT c FROM t OFFSET 1 LIMIT 5\<close> fails and
  \<open>SELECT c FROM t LIMIT 5 OFFSET 1\<close> parses.
\<close>

theorem clause_order_exhaustiveness:
  assumes "distinct perm" and "set perm = set precedence"
  shows "(perm = precedence \<longrightarrow>
            parse_sql R (select_order_sql perm)
              = Inr \<lparr>targets = [column], distinct_flag = False,
                     from_table = Some (Identifier ''t'' None False),
                     where_clause = Some (BinaryOperation ''='' column
                                            (Constant (VInt 1) None False) None False),
                     group_by = Some [column],
                     having = Some (BinaryOperation ''!='' column
                                      (Constant (VInt 2) None False) None False),
                     order_by = Some [\<lparr>field = column, direction = ASC_dir, nulls = None\<rparr>],
                     limit = Some (Constant (VInt 1) None False),
                     offset = Some (Constant (VInt 1) None False)\<rparr>)
       \<and> (perm \<noteq> precedence \<longrightarrow>
            (\<exists>e. parse_sql R (select_order_sql perm) = Inl e \<and> order_message e))
       \<and> parse_sql R ''SELECT c FROM t OFFSET 1 LIMIT 5''
           = Inl (ParsingException ''LIMIT must go after OFFSET'')
       \<and> parse_sql R ''SELECT c FROM t LIMIT 5 OFFSET 1''
           = Inr ((Select [Identifier ''c'' None False] False)
                    \<lparr>from_table := Some (Identifier ''t'' None False),
                      limit := Some (Constant (VInt 5) None False),
                      offset := Some (Constant (VInt 1) None False)\<rparr>)"
proof -
  have good: "attach_all R precedence (Select [column] False)
      = Inr \<lparr>targets = [column], distinct_flag = False,
             from_table = Some (Identifier ''t'' None False),
             where_clause = Some (BinaryOperation ''='' column
                                    (Constant (VInt 1) None False) None False),
             group_by = Some [column],
             having = Some (BinaryOperation ''!='' column
                              (Constant (VInt 2) None False) None False),
             order_by = Some [\<lparr>field = column, direction = ASC_dir, nulls = None\<rparr>],
             limit = Some (Constant (VInt 1) None False),
             offset = Some (Constant (VInt 1) None False)\<rparr>"
    by code_simp
  have bad: "\<exists>e. attach_all R perm (Select [column] False) = Inl e \<and> order_message e"
    if ne: "perm \<noteq> precedence"
  proof (cases "attach_all R perm (Select [column] False)")
    case (Inl e)
    have "\<forall>c \<in> set perm. \<not> op_to_attr (Select [column] False) c"
    proof
      fix c show "\<not> op_to_attr (Select [column] False) c"
        by (cases c) (simp_all add: Select_def)
    qed
    from attach_all_error [OF Inl assms(1) this] Inl show ?thesis by blast
  next
    case (Inr sel')
    from sorted_permutation [OF attach_all_sorted [OF Inr] assms(2)] ne
    show ?thesis by simp
  qed
  have e1: "parse_sql R ''SELECT c FROM t OFFSET 1 LIMIT 5''
           = Inl (ParsingException ''LIMIT must go after OFFSET'')"
    by code_simp
  have e2: "parse_sql R ''SELECT c FROM t LIMIT 5 OFFSET 1''
           = Inr ((Select [Identifier ''c'' None False] False)
                    \<lparr>from_table := Some (Identifier ''t'' None False),
                      limit := Some (Constant (VInt 5) None False),
                      offset := Some (Constant (VInt 1) None False)\<rparr>)"
    by code_simp
  from good bad e1 e2 show ?thesis
    by (simp add: parse_sql_select_order)
qed

theorem clause_order_exhaustiveness_witness:
  "distinct [FROM_c, WHERE_c, GROUP_BY_c, HAVING_c, ORDER_BY_c, OFFSET_c, LIMIT_c]
   \<and> set [FROM_c, WHERE_c, GROUP_BY_c, HAVING_c, ORDER_BY_c, OFFSET_c, LIMIT_c] = set precedence
   \<and> [FROM_c, WHERE_c, GROUP_BY_c, HAVING_c, ORDER_BY_c, OFFSET_c, LIMIT_c] \<noteq> precedence
   \<and> (\<exists>e. parse_sql spec_renderer
             (select_order_sql
                [FROM_c, WHERE_c, GROUP_BY_c, HAVING_c, ORDER_BY_c, OFFSET_c, LIMIT_c]) = Inl e
          \<and> order_message e)
   \<and> distinct precedence
   \<and> (\<exists>sel. parse_sql spec_renderer (select_order_sql precedence) = Inr sel)"
proof -
  have h1: "distinct [FROM_c, WHERE_c, GROUP_BY_c, HAVING_c, ORDER_BY_c, OFFSET_c, LIMIT_c]"
    by simp
  have h2: "set [FROM_c, WHERE_c, GROUP_BY_c, HAVING_c, ORDER_BY_c, OFFSET_c, LIMIT_c]
              = set precedence"
    by (auto simp: precedence_def)
  have h3: "[FROM_c, WHERE_c, GROUP_BY_c, HAVING_c, ORDER_BY_c, OFFSET_c, LIMIT_c] \<noteq> precedence"
    by (simp add: precedence_def)
  have h4: "distinct precedence" by (simp add: precedence_def)
  from clause_order_exhaustiveness [OF h1 h2, of spec_renderer] h3
  have w1: "\<exists>e. parse_sql spec_renderer
             (select_order_sql
                [FROM_c, WHERE_c, GROUP_BY_c, HAVING_c, ORDER_BY_c, OFFSET_c, LIMIT_c]) = Inl e
          \<and> order_message e"
    by blast
  from clause_order_exhaustiveness [OF h4 refl, of spec_renderer]
  have w2: "\<exists>sel. parse_sql spec_renderer (select_order_sql precedence) = Inr sel"
    by blast
  from h1 h2 h3 h4 w1 w2 show ?thesis by blast
qed

end
